theory Spec2Isabelle
  imports Complex_Main "HOL-Library.AList"
begin

section \<open>JavaScript values\<close>

text \<open>
  The store is called from JavaScript, so every argument may be any primitive value.
  Numbers are IEEE doubles in the source; the model keeps the finite ones as reals
  and has the three special values beside them. The sum and the quotient of two
  finite numbers, which the source rounds to a double, are parameters of the model.
  Objects other than the options record and the callback are not modelled.
\<close>

datatype jsnum = Fin real | NaN | PInf | NInf

datatype jsval = JUndefined | JNull | JBool bool | JNum jsnum | JStr string

datatype error = Error string | TypeError string

text \<open>
  What the source takes from outside the repository and what cannot be written down
  over exact reals is a parameter of the model: the conversions between numbers and
  strings of the JavaScript runtime, the bcrypt primitive and the glob matcher of the
  Redis command KEYS. No theorem below fixes them; a theorem that needs a property of
  one of them states it as a hypothesis. \<open>num_add\<close> is the addition of two finite
  doubles: the double nearest to their sum, or an infinity when the sum is out of
  range. \<open>num_div\<close> is the division of a finite double by a divisor of 1 or more:
  the double nearest to the quotient, which is finite.
\<close>

record env =
  num_str :: "jsnum \<Rightarrow> string"
  str_num :: "string \<Rightarrow> jsnum"
  str_parseFloat :: "string \<Rightarrow> jsnum"
  str_parseInt :: "string \<Rightarrow> jsnum"
  bc_hash :: "string \<Rightarrow> jsnum \<Rightarrow> string \<Rightarrow> string"
  bc_compare :: "string \<Rightarrow> string \<Rightarrow> bool"
  glob :: "string \<Rightarrow> string \<Rightarrow> bool"
  num_add :: "real \<Rightarrow> real \<Rightarrow> jsnum"
  num_div :: "real \<Rightarrow> real \<Rightarrow> real"

fun truthy :: "jsval \<Rightarrow> bool" where
  "truthy JUndefined = False"
| "truthy JNull = False"
| "truthy (JBool b) = b"
| "truthy (JNum (Fin r)) = (r \<noteq> 0)"
| "truthy (JNum NaN) = False"
| "truthy (JNum PInf) = True"
| "truthy (JNum NInf) = True"
| "truthy (JStr s) = (s \<noteq> [])"

fun toString :: "env \<Rightarrow> jsval \<Rightarrow> string" where
  "toString E JUndefined = ''undefined''"
| "toString E JNull = ''null''"
| "toString E (JBool b) = (if b then ''true'' else ''false'')"
| "toString E (JNum n) = num_str E n"
| "toString E (JStr s) = s"

fun toNumber :: "env \<Rightarrow> jsval \<Rightarrow> jsnum" where
  "toNumber E JUndefined = NaN"
| "toNumber E JNull = Fin 0"
| "toNumber E (JBool b) = (if b then Fin 1 else Fin 0)"
| "toNumber E (JNum n) = n"
| "toNumber E (JStr s) = str_num E s"

text \<open>
  \<open>parseFloat\<close> converts its argument to a string and reads a decimal literal from
  its start. The string of a number reads back as that number, and the strings of
  \<open>undefined\<close>, \<open>null\<close>, \<open>true\<close> and \<open>false\<close> start with no literal.
\<close>

fun parseFloat :: "env \<Rightarrow> jsval \<Rightarrow> jsnum" where
  "parseFloat E (JNum n) = n"
| "parseFloat E (JStr s) = str_parseFloat E s"
| "parseFloat E v = NaN"

fun isNaN :: "jsnum \<Rightarrow> bool" where
  "isNaN NaN = True"
| "isNaN n = False"

fun finite_num :: "jsnum \<Rightarrow> bool" where
  "finite_num (Fin r) = True"
| "finite_num n = False"

definition isFinite :: "env \<Rightarrow> jsval \<Rightarrow> bool" where
  "isFinite E v = finite_num (toNumber E v)"

definition js_or :: "jsval \<Rightarrow> jsval \<Rightarrow> jsval" where
  "js_or a b = (if truthy a then a else b)"

text \<open>
  The sum of two numbers. Two finite numbers are added as the runtime adds doubles;
  the special values follow the rules of IEEE arithmetic.
\<close>

fun jsnum_add :: "env \<Rightarrow> jsnum \<Rightarrow> jsnum \<Rightarrow> jsnum" where
  "jsnum_add E (Fin a) (Fin b) = num_add E a b"
| "jsnum_add E NaN n = NaN"
| "jsnum_add E n NaN = NaN"
| "jsnum_add E PInf NInf = NaN"
| "jsnum_add E NInf PInf = NaN"
| "jsnum_add E PInf n = PInf"
| "jsnum_add E n PInf = PInf"
| "jsnum_add E NInf n = NInf"
| "jsnum_add E n NInf = NInf"

fun is_string :: "jsval \<Rightarrow> bool" where
  "is_string (JStr s) = True"
| "is_string v = False"

text \<open>The operator \<open>+\<close>: concatenation as soon as one side is a string.\<close>

definition js_add :: "env \<Rightarrow> jsval \<Rightarrow> jsval \<Rightarrow> jsval" where
  "js_add E a b =
     (if is_string a \<or> is_string b then JStr (toString E a @ toString E b)
      else JNum (jsnum_add E (toNumber E a) (toNumber E b)))"

text \<open>Division by a finite constant of 1 or more, and \<open>Math.ceil\<close>.\<close>

fun jsnum_div :: "env \<Rightarrow> jsnum \<Rightarrow> real \<Rightarrow> jsnum" where
  "jsnum_div E (Fin a) d = Fin (num_div E a d)"
| "jsnum_div E n d = n"

fun Math_ceil :: "jsnum \<Rightarrow> jsnum" where
  "Math_ceil (Fin a) = Fin (of_int \<lceil>a\<rceil>)"
| "Math_ceil n = n"

text \<open>The operator \<open>>\<close> on two numbers: false as soon as one side is NaN.\<close>

fun js_gt :: "jsnum \<Rightarrow> jsnum \<Rightarrow> bool" where
  "js_gt (Fin a) (Fin b) = (a > b)"
| "js_gt NaN n = False"
| "js_gt n NaN = False"
| "js_gt PInf PInf = False"
| "js_gt PInf n = True"
| "js_gt NInf n = False"
| "js_gt (Fin a) PInf = False"
| "js_gt (Fin a) NInf = True"

text \<open>\<open>isNumber\<close> of the source.\<close>

definition isNumber :: "env \<Rightarrow> jsval \<Rightarrow> bool" where
  "isNumber E n = (\<not> isNaN (parseFloat E n) \<and> isFinite E n)"

section \<open>The world outside the store\<close>

text \<open>
  A key of the selected Redis database holds a hash of string fields and, once EXPIRE
  has been set on it, the time in milliseconds at which the server drops it.
\<close>

record entry =
  hfields :: "(string \<times> string) list"
  expire_at :: "int option"

text \<open>
  Every call that leaves the process is recorded: the commands of the Redis client
  and the two calls of bcrypt, with the arguments the source passes.
\<close>

datatype command =
    CreateClient jsval jsval
  | Select jsval
  | Hgetall jsval
  | Hmset jsval "(string \<times> jsval) list"
  | Expire jsval jsnum
  | Del jsval
  | Keys jsval
  | BcryptHash jsval jsnum
  | BcryptCompare jsval jsval

text \<open>
  The world: the clock read by \<open>Date.now()\<close>, the keys of the database, the calls
  made so far, and what the environment decides: whether the n-th call fails (and
  with which error) and the salt bcrypt draws at the n-th call. Time passes between
  operations only (\<open>tick\<close>).
\<close>

record world =
  clock :: int
  keyspace :: "(string \<times> entry) list"
  trace :: "command list"
  faults :: "nat \<Rightarrow> error option"
  salts :: "nat \<Rightarrow> string"

definition tick :: "int \<Rightarrow> world \<Rightarrow> world" where
  "tick d w = w\<lparr>clock := clock w + d\<rparr>"

definition io :: "command \<Rightarrow> world \<Rightarrow> error option \<times> world" where
  "io c w = (faults w (length (trace w)), w\<lparr>trace := trace w @ [c]\<rparr>)"

definition alive :: "int \<Rightarrow> entry \<Rightarrow> bool" where
  "alive t e = (case expire_at e of None \<Rightarrow> True | Some x \<Rightarrow> t \<le> x)"

text \<open>The server drops the keys whose time has come before it serves a command.\<close>

definition purge :: "world \<Rightarrow> world" where
  "purge w = w\<lparr>keyspace := filter (\<lambda>kv. alive (clock w) (snd kv)) (keyspace w)\<rparr>"

subsection \<open>The Redis client\<close>

definition client_select :: "jsval \<Rightarrow> world \<Rightarrow> error option \<times> world" where
  "client_select db w = io (Select db) w"

text \<open>HGETALL: the reply is \<open>null\<close> when the key holds nothing.\<close>

definition client_hgetall ::
  "env \<Rightarrow> jsval \<Rightarrow> world \<Rightarrow> (error + (string \<times> string) list option) \<times> world" where
  "client_hgetall E key w =
     (case io (Hgetall key) w of
        (Some err, w1) \<Rightarrow> (Inl err, w1)
      | (None, w1) \<Rightarrow>
          (let w2 = purge w1
           in (Inr (map_option hfields (map_of (keyspace w2) (toString E key))), w2)))"

text \<open>
  HMSET sets the given fields of the hash at the key, each value as its string, and
  leaves the other fields and the expiry of the key as they are.
\<close>

definition set_fields ::
  "env \<Rightarrow> (string \<times> jsval) list \<Rightarrow> (string \<times> string) list \<Rightarrow> (string \<times> string) list" where
  "set_fields E obj fs = fold (\<lambda>fv acc. AList.update (fst fv) (toString E (snd fv)) acc) obj fs"

definition client_hmset ::
  "env \<Rightarrow> jsval \<Rightarrow> (string \<times> jsval) list \<Rightarrow> world \<Rightarrow> error option \<times> world" where
  "client_hmset E key obj w =
     (case io (Hmset key obj) w of
        (Some err, w1) \<Rightarrow> (Some err, w1)
      | (None, w1) \<Rightarrow>
          (let w2 = purge w1; k = toString E key;
               e = (case map_of (keyspace w2) k of
                      None \<Rightarrow> \<lparr>hfields = set_fields E obj [], expire_at = None\<rparr>
                    | Some old \<Rightarrow> old\<lparr>hfields := set_fields E obj (hfields old)\<rparr>)
           in (None, w2\<lparr>keyspace := AList.update k e (keyspace w2)\<rparr>)))"

text \<open>
  EXPIRE takes whole seconds; a time to live of zero or less deletes the key, and a
  key that is absent is left absent.
\<close>

definition client_expire :: "env \<Rightarrow> jsval \<Rightarrow> jsnum \<Rightarrow> world \<Rightarrow> error option \<times> world" where
  "client_expire E key secs w =
     (case io (Expire key secs) w of
        (Some err, w1) \<Rightarrow> (Some err, w1)
      | (None, w1) \<Rightarrow>
          (case secs of
             Fin r \<Rightarrow>
               if r = of_int \<lfloor>r\<rfloor> then
                 (let w2 = purge w1; k = toString E key
                  in case map_of (keyspace w2) k of
                       None \<Rightarrow> (None, w2)
                     | Some e \<Rightarrow>
                         if r \<le> 0 then (None, w2\<lparr>keyspace := AList.delete k (keyspace w2)\<rparr>)
                         else (None, w2\<lparr>keyspace :=
                                 AList.update k (e\<lparr>expire_at := Some (clock w2 + \<lfloor>r\<rfloor> * 1000)\<rparr>)
                                   (keyspace w2)\<rparr>))
               else (Some (Error ''ERR value is not an integer or out of range''), w1)
           | _ \<Rightarrow> (Some (Error ''ERR value is not an integer or out of range''), w1)))"

definition client_del :: "env \<Rightarrow> jsval \<Rightarrow> world \<Rightarrow> error option \<times> world" where
  "client_del E key w =
     (case io (Del key) w of
        (Some err, w1) \<Rightarrow> (Some err, w1)
      | (None, w1) \<Rightarrow>
          (let w2 = purge w1
           in (None, w2\<lparr>keyspace := AList.delete (toString E key) (keyspace w2)\<rparr>)))"

definition client_keys :: "env \<Rightarrow> jsval \<Rightarrow> world \<Rightarrow> (error + string list) \<times> world" where
  "client_keys E pattern w =
     (case io (Keys pattern) w of
        (Some err, w1) \<Rightarrow> (Inl err, w1)
      | (None, w1) \<Rightarrow>
          (let w2 = purge w1
           in (Inr (filter (glob E (toString E pattern)) (map fst (keyspace w2))), w2)))"

subsection \<open>bcrypt\<close>

text \<open>
  Both calls refuse data that is not a string; otherwise they fail when the
  environment says so. The salt of a hash is the one drawn at that call.
\<close>

definition bcrypt_hash :: "env \<Rightarrow> jsval \<Rightarrow> jsnum \<Rightarrow> world \<Rightarrow> (error + string) \<times> world" where
  "bcrypt_hash E data rounds w =
     (case io (BcryptHash data rounds) w of
        (f, w1) \<Rightarrow>
          (case data of
             JStr s \<Rightarrow>
               (case f of
                  Some err \<Rightarrow> (Inl err, w1)
                | None \<Rightarrow> (Inr (bc_hash E s rounds (salts w (length (trace w)))), w1))
           | _ \<Rightarrow> (Inl (Error ''data must be a string and salt must either be a salt string or a number of rounds''), w1)))"

definition bcrypt_compare :: "env \<Rightarrow> jsval \<Rightarrow> jsval \<Rightarrow> world \<Rightarrow> (error + bool) \<times> world" where
  "bcrypt_compare E data hash w =
     (case io (BcryptCompare data hash) w of
        (f, w1) \<Rightarrow>
          (case (data, hash) of
             (JStr s, JStr h) \<Rightarrow>
               (case f of
                  Some err \<Rightarrow> (Inl err, w1)
                | None \<Rightarrow> (Inr (bc_compare E s h), w1))
           | _ \<Rightarrow> (Inl (Error ''data and hash must be strings''), w1)))"

section \<open>The store\<close>

text \<open>
  The options object of the constructor: the part for the store (\<open>redisstore\<close>) and
  whether a client was passed in. A field that is not given is \<open>undefined\<close>.
\<close>

record rs_options =
  database :: jsval
  tokenkey :: jsval
  rounds :: jsval

record options =
  redisstore :: "rs_options option"
  client :: bool

text \<open>The fields of a store object: \<open>_options\<close>, \<open>_database\<close>, \<open>_tokenKey\<close>, \<open>_selected\<close>.\<close>

record store =
  self_options :: options
  self_database :: jsval
  self_tokenKey :: jsval
  self_selected :: bool

text \<open>
  What a call of an operation does to its caller: it throws, it calls the callback
  with an error or \<open>null\<close> and further arguments, or an exception is thrown inside the
  handler of a reply, where the caller cannot catch it.
\<close>

datatype outcome = Throws error | Calls "error option" "jsval list" | Uncaught error

definition no_rs_options :: rs_options where
  "no_rs_options = \<lparr>database = JUndefined, tokenkey = JUndefined, rounds = JUndefined\<rparr>"

definition RedisStore ::
  "env \<Rightarrow> jsval \<Rightarrow> jsval \<Rightarrow> options option \<Rightarrow> world \<Rightarrow> (error + store) \<times> world" where
  "RedisStore E port host opts w =
     (let port = js_or port (JNum (Fin 6379));
          host = js_or host (JStr ''127.0.0.1'');
          opts1 = (case opts of None \<Rightarrow> \<lparr>redisstore = None, client = False\<rparr> | Some x \<Rightarrow> x);
          rs = (case redisstore opts1 of None \<Rightarrow> no_rs_options | Some r \<Rightarrow> r)
      in if truthy (database rs) \<and> \<not> isNumber E (database rs)
         then (Inl (Error ''database has to be a number (if provided at all)''), w)
         else
           (let self = \<lparr>self_options = opts1\<lparr>redisstore := None\<rparr>,
                        self_database = (if truthy (database rs) then database rs else JNum (Fin 0)),
                        self_tokenKey = js_or (tokenkey rs) (JStr ''pwdless:''),
                        self_selected = False\<rparr>
            in if client opts1 then (Inr self, w)
               else (Inr self, snd (io (CreateClient port host) w))))"

definition private_select :: "store \<Rightarrow> world \<Rightarrow> error option \<times> store \<times> world" where
  "private_select self w =
     (if self_selected self then (None, self, w)
      else (case client_select (self_database self) w of
              (Some err, w1) \<Rightarrow> (Some err, self, w1)
            | (None, w1) \<Rightarrow> (None, self\<lparr>self_selected := True\<rparr>, w1)))"

text \<open>
  The five operations. The argument \<open>callback\<close> is a flag: whether a function was
  passed. What the function is called with is the outcome of the operation. A field
  that the reply to HGETALL does not have reads as \<open>undefined\<close>.
\<close>

definition obj_get :: "(string \<times> string) list \<Rightarrow> string \<Rightarrow> jsval" where
  "obj_get obj f = (case map_of obj f of None \<Rightarrow> JUndefined | Some s \<Rightarrow> JStr s)"

definition authenticate ::
  "env \<Rightarrow> jsval \<Rightarrow> jsval \<Rightarrow> bool \<Rightarrow> store \<Rightarrow> world \<Rightarrow> outcome \<times> store \<times> world" where
  "authenticate E token uid callback self w =
     (if \<not> truthy token \<or> \<not> truthy uid \<or> \<not> callback
      then (Throws (Error ''TokenStore:authenticate called with invalid parameters''), self, w)
      else
        (case private_select self w of
           (Some err, self1, w1) \<Rightarrow> (Calls (Some err) [JBool False, JNull], self1, w1)
         | (None, self1, w1) \<Rightarrow>
             (let key = js_add E (self_tokenKey self1) uid
              in case client_hgetall E key w1 of
                   (Inl err, w2) \<Rightarrow> (Calls (Some err) [JBool False, JNull], self1, w2)
                 | (Inr None, w2) \<Rightarrow> (Calls None [JBool False, JNull], self1, w2)
                 | (Inr (Some obj), w2) \<Rightarrow>
                     if js_gt (Fin (of_int (clock w2))) (toNumber E (obj_get obj ''ttl''))
                     then (Calls None [JBool False, JNull], self1, w2)
                     else
                       (case bcrypt_compare E token (obj_get obj ''token'') w2 of
                          (Inl err, w3) \<Rightarrow> (Calls (Some err) [JBool False, JNull], self1, w3)
                        | (Inr res, w3) \<Rightarrow>
                            if res then (Calls None [JBool True, obj_get obj ''origin''], self1, w3)
                            else (Calls None [JBool False, JNull], self1, w3)))))"

definition storeOrUpdate ::
  "env \<Rightarrow> jsval \<Rightarrow> jsval \<Rightarrow> jsval \<Rightarrow> jsval \<Rightarrow> bool \<Rightarrow> store \<Rightarrow> world
     \<Rightarrow> outcome \<times> store \<times> world" where
  "storeOrUpdate E token uid msToLive originUrl callback self w =
     (if \<not> truthy token \<or> \<not> truthy uid \<or> \<not> truthy msToLive \<or> \<not> callback
           \<or> \<not> isNumber E msToLive
      then (Throws (Error ''TokenStore:storeOrUpdate called with invalid parameters''), self, w)
      else
        (case private_select self w of
           (Some err, self1, w1) \<Rightarrow> (Calls (Some err) [JBool False, JNull], self1, w1)
         | (None, self1, w1) \<Rightarrow>
             (case bcrypt_hash E token (Fin 10) w1 of
                (Inl err, w2) \<Rightarrow> (Calls (Some err) [], self1, w2)
              | (Inr hashedToken, w2) \<Rightarrow>
                  (let originUrl = js_or originUrl (JStr '''');
                       key = js_add E (self_tokenKey self1) uid
                   in case client_hmset E key
                             [(''token'', JStr hashedToken),
                              (''origin'', originUrl),
                              (''ttl'', js_add E (JNum (Fin (of_int (clock w2)))) msToLive)] w2 of
                        (Some err, w3) \<Rightarrow> (Calls (Some err) [], self1, w3)
                      | (None, w3) \<Rightarrow>
                          (let msToLive = Math_ceil (jsnum_div E (toNumber E msToLive) 1000)
                           in case client_expire E key msToLive w3 of
                                (Some err, w4) \<Rightarrow> (Calls (Some err) [], self1, w4)
                              | (None, w4) \<Rightarrow> (Calls None [], self1, w4))))))"

definition invalidateUser ::
  "env \<Rightarrow> jsval \<Rightarrow> bool \<Rightarrow> store \<Rightarrow> world \<Rightarrow> outcome \<times> store \<times> world" where
  "invalidateUser E uid callback self w =
     (if \<not> truthy uid \<or> \<not> callback
      then (Throws (Error ''TokenStore:invalidateUser called with invalid parameters''), self, w)
      else
        (case private_select self w of
           (Some err, self1, w1) \<Rightarrow> (Calls (Some err) [JBool False, JNull], self1, w1)
         | (None, self1, w1) \<Rightarrow>
             (let key = js_add E (self_tokenKey self1) uid
              in case client_del E key w1 of
                   (Some err, w2) \<Rightarrow> (Calls (Some err) [], self1, w2)
                 | (None, w2) \<Rightarrow> (Calls None [], self1, w2))))"

text \<open>
  \<open>async.each\<close> over the matches: every deletion is issued, in the order of the
  matches, and the final callback gets the first error, if there is one.
\<close>

fun each_del :: "env \<Rightarrow> string list \<Rightarrow> world \<Rightarrow> error option \<times> world" where
  "each_del E [] w = (None, w)"
| "each_del E (m # ms) w =
     (case client_del E (JStr m) w of
        (r, w1) \<Rightarrow>
          (case each_del E ms w1 of
             (r', w2) \<Rightarrow> ((case r of Some err \<Rightarrow> Some err | None \<Rightarrow> r'), w2)))"

definition clear :: "env \<Rightarrow> bool \<Rightarrow> store \<Rightarrow> world \<Rightarrow> outcome \<times> store \<times> world" where
  "clear E callback self w =
     (if \<not> callback
      then (Throws (Error ''TokenStore:clear called with invalid parameters''), self, w)
      else
        (case private_select self w of
           (Some err, self1, w1) \<Rightarrow> (Calls (Some err) [JBool False, JNull], self1, w1)
         | (None, self1, w1) \<Rightarrow>
             (let pattern = js_add E (self_tokenKey self1) (JStr ''*'')
              in case client_keys E pattern w1 of
                   (Inl err, w2) \<Rightarrow> (Calls (Some err) [], self1, w2)
                 | (Inr matches, w2) \<Rightarrow>
                     if length matches > 0
                     then (case each_del E matches w2 of (r, w3) \<Rightarrow> (Calls r [], self1, w3))
                     else (Calls None [], self1, w2))))"

definition length_store :: "env \<Rightarrow> bool \<Rightarrow> store \<Rightarrow> world \<Rightarrow> outcome \<times> store \<times> world" where
  "length_store E callback self w =
     (if \<not> callback
      then (Throws (Error ''TokenStore:length called with invalid parameters''), self, w)
      else
        (case private_select self w of
           (Some err, self1, w1) \<Rightarrow> (Calls (Some err) [JBool False, JNull], self1, w1)
         | (None, self1, w1) \<Rightarrow>
             (let pattern = js_add E (self_tokenKey self1) (JStr ''*'')
              in case client_keys E pattern w1 of
                   (Inl err, w2) \<Rightarrow> (Calls (Some err) [], self1, w2)
                 | (Inr matches, w2) \<Rightarrow>
                     (Calls None [JNum (Fin (of_nat (length matches)))], self1, w2))))"

section \<open>The variant that reads the number of rounds from the options\<close>

text \<open>
  The second copy of the source (\<open>src/unnamed/part_000\<close>) differs from the first in
  the constructor, which takes no client and gives the port and the host no default,
  and in \<open>storeOrUpdate\<close>, which reads \<open>redisstore.rounds\<close> from the options kept by
  the constructor and leaves \<open>originUrl\<close> as it is.
\<close>

definition bcryptMinRounds :: real where
  "bcryptMinRounds = 12"

definition RedisStore_rounds ::
  "env \<Rightarrow> jsval \<Rightarrow> jsval \<Rightarrow> options option \<Rightarrow> world \<Rightarrow> (error + store) \<times> world" where
  "RedisStore_rounds E port host opts w =
     (let opts1 = (case opts of None \<Rightarrow> \<lparr>redisstore = None, client = False\<rparr> | Some x \<Rightarrow> x);
          rs = (case redisstore opts1 of None \<Rightarrow> no_rs_options | Some r \<Rightarrow> r)
      in if truthy (database rs) \<and> \<not> isNumber E (database rs)
         then (Inl (Error ''database has to be a number (if provided at all)''), w)
         else
           (let self = \<lparr>self_options = opts1\<lparr>redisstore := None\<rparr>,
                        self_database = (if truthy (database rs) then database rs else JNum (Fin 0)),
                        self_tokenKey = js_or (tokenkey rs) (JStr ''pwdless:''),
                        self_selected = False\<rparr>
            in (Inr self, snd (io (CreateClient port host) w))))"

text \<open>
  An exception thrown in the callback of \<open>_select\<close> reaches the caller when the
  callback runs at once (the database is selected already), and nobody when it runs
  in the handler of the reply to SELECT.
\<close>

definition thrown_in_callback :: "store \<Rightarrow> error \<Rightarrow> outcome" where
  "thrown_in_callback self err = (if self_selected self then Throws err else Uncaught err)"

definition storeOrUpdate_rounds ::
  "env \<Rightarrow> jsval \<Rightarrow> jsval \<Rightarrow> jsval \<Rightarrow> jsval \<Rightarrow> bool \<Rightarrow> store \<Rightarrow> world
     \<Rightarrow> outcome \<times> store \<times> world" where
  "storeOrUpdate_rounds E token uid msToLive originUrl callback self w =
     (if \<not> truthy token \<or> \<not> truthy uid \<or> \<not> truthy msToLive \<or> \<not> callback
           \<or> \<not> isNumber E msToLive
      then (Throws (Error ''TokenStore:storeOrUpdate called with invalid parameters''), self, w)
      else
        (case private_select self w of
           (Some err, self1, w1) \<Rightarrow> (Calls (Some err) [JBool False, JNull], self1, w1)
         | (None, self1, w1) \<Rightarrow>
             (case redisstore (self_options self1) of
                None \<Rightarrow>
                  (thrown_in_callback self
                     (TypeError ''Cannot read property 'rounds' of undefined''), self1, w1)
              | Some rs \<Rightarrow>
                  (let rounds = js_or (rounds rs) (JNum (Fin bcryptMinRounds))
                   in case rounds of
                        JNum n \<Rightarrow>
                          if js_gt (Fin bcryptMinRounds) n
                          then (thrown_in_callback self
                                  (Error ''Invalid redisstore.rounds value. Should be an integer greater than 12.''),
                                self1, w1)
                          else
                            (case bcrypt_hash E token (str_parseInt E (num_str E n)) w1 of
                               (Inl err, w2) \<Rightarrow> (Calls (Some err) [], self1, w2)
                             | (Inr hashedToken, w2) \<Rightarrow>
                                 (let key = js_add E (self_tokenKey self1) uid
                                  in case client_hmset E key
                                            [(''token'', JStr hashedToken),
                                             (''origin'', originUrl),
                                             (''ttl'', js_add E (JNum (Fin (of_int (clock w2)))) msToLive)] w2 of
                                       (Some err, w3) \<Rightarrow> (Calls (Some err) [], self1, w3)
                                     | (None, w3) \<Rightarrow>
                                         (let msToLive = Math_ceil (jsnum_div E (toNumber E msToLive) 1000)
                                          in case client_expire E key msToLive w3 of
                                               (Some err, w4) \<Rightarrow> (Calls (Some err) [], self1, w4)
                                             | (None, w4) \<Rightarrow> (Calls None [], self1, w4))))
                      | _ \<Rightarrow>
                          (thrown_in_callback self
                             (Error ''Invalid redisstore.rounds value. Should be an integer greater than 12.''),
                           self1, w1)))))"

section \<open>Invariants and a concrete environment\<close>

text \<open>No key of the world is past its expiry: the state the server leaves behind.\<close>

definition fresh :: "world \<Rightarrow> bool" where
  "fresh w = (\<forall>kv \<in> set (keyspace w). alive (clock w) (snd kv))"

text \<open>
  A small environment on which the definitions can be run: whole numbers from 0 are
  written in decimal, the hash is the length of the salt in strokes, a separator,
  the salt and the data, the matcher knows a pattern that ends in one star, and the
  sum and the quotient of two numbers are exact.
\<close>

definition digit_of :: "nat \<Rightarrow> char" where
  "digit_of d = ''0123456789'' ! d"

function dec_nat :: "nat \<Rightarrow> string" where
  "dec_nat n = (if n < 10 then [digit_of n] else dec_nat (n div 10) @ [digit_of (n mod 10)])"
  by pat_completeness auto
termination
  by (relation "measure id") auto

definition is_digit :: "char \<Rightarrow> bool" where
  "is_digit c = (c \<in> set ''0123456789'')"

definition digit_val :: "char \<Rightarrow> nat" where
  "digit_val c = length (takeWhile (\<lambda>d. d \<noteq> c) ''0123456789'')"

definition undec :: "string \<Rightarrow> nat" where
  "undec s = fold (\<lambda>c acc. acc * 10 + digit_val c) s 0"

definition num_str0 :: "jsnum \<Rightarrow> string" where
  "num_str0 n =
     (case n of
        Fin r \<Rightarrow> if 0 \<le> r \<and> r = of_int \<lfloor>r\<rfloor> then dec_nat (nat \<lfloor>r\<rfloor>) else ''?''
      | NaN \<Rightarrow> ''NaN''
      | PInf \<Rightarrow> ''Infinity''
      | NInf \<Rightarrow> ''-Infinity'')"

definition str_num0 :: "string \<Rightarrow> jsnum" where
  "str_num0 s = (if s \<noteq> [] \<and> list_all is_digit s then Fin (of_nat (undec s)) else NaN)"

definition bc_hash0 :: "string \<Rightarrow> jsnum \<Rightarrow> string \<Rightarrow> string" where
  "bc_hash0 s n salt = replicate (length salt) CHR ''x'' @ CHR ''$'' # salt @ s"

definition bc_compare0 :: "string \<Rightarrow> string \<Rightarrow> bool" where
  "bc_compare0 s h =
     (let n = length (takeWhile (\<lambda>c. c \<noteq> CHR ''$'') h)
      in n < length h \<and> drop n (drop (Suc n) h) = s)"

definition glob0 :: "string \<Rightarrow> string \<Rightarrow> bool" where
  "glob0 p k =
     (case rev p of
        [] \<Rightarrow> k = []
      | c # q \<Rightarrow> if c = CHR ''*'' then take (length q) k = rev q else k = p)"

definition E0 :: env where
  "E0 = \<lparr>num_str = num_str0, str_num = str_num0, str_parseFloat = str_num0,
         str_parseInt = str_num0, bc_hash = bc_hash0, bc_compare = bc_compare0, glob = glob0,
         num_add = (\<lambda>a b. Fin (a + b)), num_div = (\<lambda>a b. a / b)\<rparr>"

text \<open>
  The addition of doubles, for sums of magnitude 1 and more: the sum is rounded to
  53 significant bits, a tie going to the even neighbour, and a rounded sum of
  magnitude \<open>2 ^ 1024\<close> or more is an infinity. \<open>binade x\<close> is the exponent \<open>e\<close> with
  \<open>2 ^ e \<le> x < 2 ^ (e + 1)\<close>. A sum of magnitude below 1 is left as it is.
\<close>

function binade :: "real \<Rightarrow> nat" where
  "binade x = (if x < 2 then 0 else Suc (binade (x / 2)))"
  by pat_completeness auto
termination
proof (relation "measure (\<lambda>x. nat \<lceil>x\<rceil>)")
  show "wf (measure (\<lambda>x::real. nat \<lceil>x\<rceil>))" by simp
next
  fix x :: real
  assume a: "\<not> x < 2"
  then have "x / 2 \<le> x - 1" by simp
  then have "\<lceil>x / 2\<rceil> \<le> \<lceil>x - 1\<rceil>" by (rule ceiling_mono)
  moreover have "\<lceil>x - 1\<rceil> = \<lceil>x\<rceil> - 1" by simp
  moreover have "0 < \<lceil>x\<rceil>" using a by (simp add: ceiling_less_iff not_less)
  ultimately show "(x / 2, x) \<in> measure (\<lambda>x. nat \<lceil>x\<rceil>)" by simp
qed

definition round_even :: "real \<Rightarrow> int" where
  "round_even y =
     (let f = \<lfloor>y\<rfloor>
      in if y - of_int f < 1 / 2 then f
         else if 1 / 2 < y - of_int f then f + 1
         else if even f then f else f + 1)"

definition add_double :: "real \<Rightarrow> real \<Rightarrow> jsnum" where
  "add_double a b =
     (let x = a + b
      in if \<bar>x\<bar> < 1 then Fin x
         else let ulp = 2 ^ binade \<bar>x\<bar> / 2 ^ 52;
                  y = of_int (round_even (x / ulp)) * ulp
              in if 2 ^ 1024 \<le> \<bar>y\<bar> then (if 0 < x then PInf else NInf) else Fin y)"

text \<open>The small environment with this addition.\<close>

definition E_double :: env where
  "E_double = E0\<lparr>num_add := add_double\<rparr>"

text \<open>An empty database at time 5000 where no call fails and the n-th salt is n letters long.\<close>

definition w0 :: world where
  "w0 = \<lparr>clock = 5000, keyspace = [], trace = [], faults = (\<lambda>n. None),
         salts = (\<lambda>n. replicate n CHR ''s'')\<rparr>"

text \<open>A store as the constructor leaves it with no options given.\<close>

definition store0 :: store where
  "store0 = \<lparr>self_options = \<lparr>redisstore = None, client = False\<rparr>, self_database = JNum (Fin 0),
              self_tokenKey = JStr ''pwdless:'', self_selected = False\<rparr>"

text \<open>A world with three keys, two of them under the default prefix.\<close>

definition w_keys :: world where
  "w_keys = w0\<lparr>keyspace :=
      [(''pwdless:ann'', \<lparr>hfields = [(''token'', ''x'')], expire_at = None\<rparr>),
       (''other'', \<lparr>hfields = [(''token'', ''y'')], expire_at = None\<rparr>),
       (''pwdless:bob'', \<lparr>hfields = [(''token'', ''z'')], expire_at = Some 9000\<rparr>)]\<rparr>"

text \<open>A world where the record of bob is still held by the server and its time (4000) has passed.\<close>

definition w_expired :: world where
  "w_expired = w0\<lparr>keyspace :=
      [(''pwdless:bob'',
        \<lparr>hfields = [(''token'', ''x$stok''), (''origin'', ''http://x''), (''ttl'', ''4000'')],
         expire_at = Some 6000\<rparr>)]\<rparr>"

text \<open>Two tokens stored for bob one after the other, ten milliseconds apart.\<close>

definition stored_A :: "outcome \<times> store \<times> world" where
  "stored_A = storeOrUpdate E0 (JStr ''tokA'') (JStr ''bob'') (JNum (Fin 60000)) (JStr ''http://a'')
                True store0 w0"

definition stored_B :: "outcome \<times> store \<times> world" where
  "stored_B = storeOrUpdate E0 (JStr ''tokB'') (JStr ''bob'') (JNum (Fin 60000)) (JStr ''http://b'')
                True (fst (snd stored_A)) (tick 10 (snd (snd stored_A)))"

text \<open>The same token stored for bob twice.\<close>

definition stored_1 :: "outcome \<times> store \<times> world" where
  "stored_1 = storeOrUpdate E0 (JStr ''tok'') (JStr ''bob'') (JNum (Fin 60000)) (JStr ''http://a'')
                True store0 w0"

definition stored_2 :: "outcome \<times> store \<times> world" where
  "stored_2 = storeOrUpdate E0 (JStr ''tok'') (JStr ''bob'') (JNum (Fin 60000)) (JStr ''http://a'')
                True (fst (snd stored_1)) (tick 10 (snd (snd stored_1)))"

text \<open>Options that ask for four rounds of bcrypt.\<close>

definition opts_rounds4 :: options where
  "opts_rounds4 = \<lparr>redisstore = Some \<lparr>database = JUndefined, tokenkey = JUndefined, rounds = JNum (Fin 4)\<rparr>,
                    client = False\<rparr>"

section \<open>Argument checks\<close>

text \<open>
  C7 (as amended). Each operation checks its arguments before anything else: when a
  required argument is falsy (missing, \<open>null\<close>, the empty string), when the callback
  is missing, or when \<open>msToLive\<close> is not a number in the sense of \<open>isNumber\<close>, the
  operation throws and leaves the store object and the world as they were, so no
  call has left the process. The constructor throws, before it creates a client, when
  the database index is given (truthy) and is not a number.
\<close>

theorem invalid_arguments_throw_before_io:
  "(\<not> truthy token \<or> \<not> truthy uid \<or> \<not> callback \<longrightarrow>
      authenticate E token uid callback self w
        = (Throws (Error ''TokenStore:authenticate called with invalid parameters''), self, w))
   \<and> (\<not> truthy token \<or> \<not> truthy uid \<or> \<not> truthy msToLive \<or> \<not> callback
        \<or> \<not> isNumber E msToLive \<longrightarrow>
      storeOrUpdate E token uid msToLive originUrl callback self w
        = (Throws (Error ''TokenStore:storeOrUpdate called with invalid parameters''), self, w))
   \<and> (\<not> truthy uid \<or> \<not> callback \<longrightarrow>
      invalidateUser E uid callback self w
        = (Throws (Error ''TokenStore:invalidateUser called with invalid parameters''), self, w))
   \<and> (\<not> callback \<longrightarrow>
      clear E callback self w
        = (Throws (Error ''TokenStore:clear called with invalid parameters''), self, w))
   \<and> (\<not> callback \<longrightarrow>
      length_store E callback self w
        = (Throws (Error ''TokenStore:length called with invalid parameters''), self, w))
   \<and> (redisstore opts = Some rs \<and> truthy (database rs) \<and> \<not> isNumber E (database rs) \<longrightarrow>
      RedisStore E port host (Some opts) w
        = (Inl (Error ''database has to be a number (if provided at all)''), w))"
  by (simp add: authenticate_def storeOrUpdate_def invalidateUser_def clear_def
      length_store_def RedisStore_def Let_def)

text \<open>
  The checks at work: an empty token, a time to live that is a word, a missing user
  id, a missing callback, and the database index \<open>'test'\<close>.
\<close>

theorem invalid_arguments_witness:
  "authenticate E0 (JStr '''') (JStr ''bob'') True store0 w0
        = (Throws (Error ''TokenStore:authenticate called with invalid parameters''), store0, w0)
   \<and> storeOrUpdate E0 (JStr ''tok'') (JStr ''bob'') (JStr ''soon'') JNull True store0 w0
        = (Throws (Error ''TokenStore:storeOrUpdate called with invalid parameters''), store0, w0)
   \<and> invalidateUser E0 JUndefined True store0 w0
        = (Throws (Error ''TokenStore:invalidateUser called with invalid parameters''), store0, w0)
   \<and> clear E0 False store0 w0
        = (Throws (Error ''TokenStore:clear called with invalid parameters''), store0, w0)
   \<and> length_store E0 False store0 w0
        = (Throws (Error ''TokenStore:length called with invalid parameters''), store0, w0)
   \<and> RedisStore E0 JNull JNull
        (Some \<lparr>redisstore = Some \<lparr>database = JStr ''test'', tokenkey = JUndefined, rounds = JUndefined\<rparr>,
               client = False\<rparr>) w0
        = (Inl (Error ''database has to be a number (if provided at all)''), w0)"
proof -
  have a: "\<not> isNumber E0 (JStr ''soon'')"
    by (simp add: isNumber_def E0_def str_num0_def is_digit_def)
  have b: "\<not> isNumber E0 (JStr ''test'')"
    by (simp add: isNumber_def E0_def str_num0_def is_digit_def)
  show ?thesis
    using a b
      invalid_arguments_throw_before_io
        [where E = E0 and token = "JStr ''''" and uid = "JStr ''bob''" and callback = True
           and self = store0 and w = w0]
      invalid_arguments_throw_before_io
        [where E = E0 and token = "JStr ''tok''" and uid = "JStr ''bob''"
           and msToLive = "JStr ''soon''" and originUrl = JNull and callback = True
           and self = store0 and w = w0]
      invalid_arguments_throw_before_io
        [where E = E0 and uid = JUndefined and callback = False and self = store0 and w = w0
           and opts = "\<lparr>redisstore = Some \<lparr>database = JStr ''test'', tokenkey = JUndefined, rounds = JUndefined\<rparr>,
               client = False\<rparr>"
           and rs = "\<lparr>database = JStr ''test'', tokenkey = JUndefined, rounds = JUndefined\<rparr>"
           and port = JNull and host = JNull]
      invalid_arguments_throw_before_io
        [where E = E0 and uid = JUndefined and callback = True and self = store0 and w = w0]
    by simp
qed

text \<open>
  C7 as it is written fails for a database index that is not a number and is falsy:
  \<open>NaN\<close>, the empty string and \<open>false\<close> are no numbers for \<open>isNumber\<close>, yet the
  constructor takes each of them as not given, builds the store on database 0 and
  creates the client.
\<close>

theorem falsy_database_is_accepted:
  "\<not> isNumber E0 (JNum NaN)
   \<and> RedisStore E0 JNull JNull
        (Some \<lparr>redisstore = Some \<lparr>database = JNum NaN, tokenkey = JUndefined, rounds = JUndefined\<rparr>,
               client = False\<rparr>) w0
      = (Inr store0, w0\<lparr>trace := [CreateClient (JNum (Fin 6379)) (JStr ''127.0.0.1'')]\<rparr>)
   \<and> \<not> isNumber E0 (JStr '''')
   \<and> RedisStore E0 JNull JNull
        (Some \<lparr>redisstore = Some \<lparr>database = JStr '''', tokenkey = JUndefined, rounds = JUndefined\<rparr>,
               client = False\<rparr>) w0
      = (Inr store0, w0\<lparr>trace := [CreateClient (JNum (Fin 6379)) (JStr ''127.0.0.1'')]\<rparr>)
   \<and> \<not> isNumber E0 (JBool False)
   \<and> RedisStore E0 JNull JNull
        (Some \<lparr>redisstore = Some \<lparr>database = JBool False, tokenkey = JUndefined, rounds = JUndefined\<rparr>,
               client = False\<rparr>) w0
      = (Inr store0, w0\<lparr>trace := [CreateClient (JNum (Fin 6379)) (JStr ''127.0.0.1'')]\<rparr>)"
  by (simp add: RedisStore_def isNumber_def Let_def js_or_def store0_def io_def w0_def E0_def
      str_num0_def)

section \<open>Selecting the database\<close>

lemma private_select_unselected:
  "\<not> self_selected self \<Longrightarrow>
     private_select self w =
       (case faults w (length (trace w)) of
          Some err \<Rightarrow> (Some err, self, w\<lparr>trace := trace w @ [Select (self_database self)]\<rparr>)
        | None \<Rightarrow> (None, self\<lparr>self_selected := True\<rparr>,
                    w\<lparr>trace := trace w @ [Select (self_database self)]\<rparr>))"
  by (simp add: private_select_def client_select_def io_def split: option.splits)

lemma private_select_selected:
  "self_selected self \<Longrightarrow> private_select self w = (None, self, w)"
  by (simp add: private_select_def)



section \<open>What one call changes\<close>

lemma purge_proj [simp]:
  "clock (purge w) = clock w" "trace (purge w) = trace w"
  "faults (purge w) = faults w" "salts (purge w) = salts w"
  by (simp_all add: purge_def)

lemma private_select_world:
  assumes "private_select self w = (r, self1, w1)"
  shows "clock w1 = clock w" "faults w1 = faults w" "salts w1 = salts w" "keyspace w1 = keyspace w"
    "self_tokenKey self1 = self_tokenKey self" "self_database self1 = self_database self"
    "self_options self1 = self_options self"
  using assms
  by (auto simp: private_select_def client_select_def io_def split: if_splits option.splits)

lemma bcrypt_hash_world:
  assumes "bcrypt_hash E data n w = (r, w1)"
  shows "clock w1 = clock w" "faults w1 = faults w" "salts w1 = salts w" "keyspace w1 = keyspace w"
    "trace w1 = trace w @ [BcryptHash data n]"
  using assms
  by (auto simp: bcrypt_hash_def io_def split: jsval.splits option.splits)

lemma client_hmset_reply:
  "client_hmset E key obj w = (r, w1) \<Longrightarrow>
     r = faults w (length (trace w)) \<and> trace w1 = trace w @ [Hmset key obj]
     \<and> clock w1 = clock w \<and> faults w1 = faults w \<and> salts w1 = salts w"
  by (auto simp: client_hmset_def io_def Let_def split: option.splits)

lemma client_expire_reply:
  "client_expire E key (Fin (of_int n)) w = (r, w1) \<Longrightarrow>
     r = faults w (length (trace w)) \<and> trace w1 = trace w @ [Expire key (Fin (of_int n))]
     \<and> clock w1 = clock w \<and> faults w1 = faults w \<and> salts w1 = salts w"
  by (auto simp: client_expire_def io_def Let_def split: option.splits if_splits)

lemma isNumber_finite: "isNumber E v \<Longrightarrow> \<exists>r. toNumber E v = Fin r"
  by (cases "toNumber E v") (simp_all add: isNumber_def isFinite_def)

text \<open>
  The steps of \<open>storeOrUpdate\<close> once the arguments are accepted, the database is
  selected and the token is hashed: HMSET with the three fields, and EXPIRE only
  after a good reply to it.
\<close>

lemma storeOrUpdate_steps:
  assumes valid: "truthy token" "truthy uid" "truthy msToLive" "isNumber E msToLive"
    and sel: "private_select self w = (None, self1, w1)"
    and hash: "bcrypt_hash E token (Fin 10) w1 = (Inr hashedToken, w2)"
    and res: "storeOrUpdate E token uid msToLive originUrl True self w = (out, self', w')"
    and key: "key = js_add E (self_tokenKey self) uid"
    and written: "written = [(''token'', JStr hashedToken), (''origin'', js_or originUrl (JStr '''')),
                    (''ttl'', js_add E (JNum (Fin (of_int (clock w)))) msToLive)]"
    and secs: "secs = Math_ceil (jsnum_div E (toNumber E msToLive) 1000)"
  shows "case faults w (length (trace w2)) of
            Some err \<Rightarrow> out = Calls (Some err) [] \<and> trace w' = trace w2 @ [Hmset key written]
          | None \<Rightarrow> trace w' = trace w2 @ [Hmset key written, Expire key secs]
                    \<and> out = Calls (faults w (Suc (length (trace w2)))) []"
proof -
  obtain r where r: "toNumber E msToLive = Fin r"
    using isNumber_finite[OF valid(4)] by blast
  have secs': "secs = Fin (of_int \<lceil>num_div E r 1000\<rceil>)"
    by (simp add: secs r)
  note sw = private_select_world[OF sel]
  note hw = bcrypt_hash_world[OF hash]
  have key': "js_add E (self_tokenKey self1) uid = key"
    by (simp add: key sw)
  have rec': "[(''token'', JStr hashedToken), (''origin'', js_or originUrl (JStr '''')),
               (''ttl'', js_add E (JNum (Fin (of_int (clock w2)))) msToLive)] = written"
    by (simp add: written hw sw)
  obtain f3 w3 where hm: "client_hmset E key written w2 = (f3, w3)"
    by (cases "client_hmset E key written w2") auto
  note h3 = client_hmset_reply[OF hm]
  have f3: "f3 = faults w (length (trace w2))"
    using h3 by (simp add: hw sw)
  obtain f4 w4 where ex: "client_expire E key (Fin (of_int \<lceil>num_div E r 1000\<rceil>)) w3 = (f4, w4)"
    by (cases "client_expire E key (Fin (of_int \<lceil>num_div E r 1000\<rceil>)) w3") auto
  note h4 = client_expire_reply[OF ex]
  have f4: "f4 = faults w (Suc (length (trace w2)))"
    using h4 h3 by (simp add: hw sw)
  show ?thesis
  proof (cases f3)
    case None
    then have "storeOrUpdate E token uid msToLive originUrl True self w
        = ((case f4 of Some err \<Rightarrow> Calls (Some err) [] | None \<Rightarrow> Calls None []), self1, w4)"
      using valid sel hash hm ex
      by (simp add: storeOrUpdate_def key' rec' Let_def r split: option.splits)
    then show ?thesis
      using res None f3 f4 h4 h3 by (auto simp: secs' split: option.splits)
  next
    case (Some err)
    then have "storeOrUpdate E token uid msToLive originUrl True self w = (Calls (Some err) [], self1, w3)"
      using valid sel hash hm
      by (simp add: storeOrUpdate_def key' rec' Let_def)
    then show ?thesis
      using res Some f3 h3 by auto
  qed
qed

subsection \<open>The concrete environment at work\<close>

lemma w0_proj [simp]:
  "clock w0 = 5000" "trace w0 = []" "faults w0 = (\<lambda>n. None)" "salts w0 = (\<lambda>n. replicate n CHR ''s'')" "keyspace w0 = []"
  by (simp_all add: w0_def)

lemma store0_proj [simp]:
  "self_tokenKey store0 = JStr ''pwdless:''" "self_database store0 = JNum (Fin 0)"
  "self_selected store0 = False"
  by (simp_all add: store0_def)

lemma E0_proj [simp]:
  "bc_hash E0 = bc_hash0" "bc_compare E0 = bc_compare0" "num_str E0 = num_str0"
  "str_num E0 = str_num0" "str_parseFloat E0 = str_num0" "str_parseInt E0 = str_num0" "glob E0 = glob0"
  "num_add E0 = (\<lambda>a b. Fin (a + b))" "num_div E0 = (\<lambda>a b. a / b)"
  by (simp_all add: E0_def)

lemma E_double_proj [simp]:
  "bc_hash E_double = bc_hash0" "bc_compare E_double = bc_compare0" "num_str E_double = num_str0"
  "str_num E_double = str_num0" "str_parseFloat E_double = str_num0" "num_add E_double = add_double"
  "num_div E_double = (\<lambda>a b. a / b)"
  by (simp_all add: E_double_def E0_def)

lemma store0_select:
  "private_select store0 w0
     = (None, store0\<lparr>self_selected := True\<rparr>, w0\<lparr>trace := [Select (JNum (Fin 0))]\<rparr>)"
  by (simp add: private_select_def client_select_def io_def)

lemma store0_hash:
  "bcrypt_hash E0 (JStr ''tok'') (Fin 10) (w0\<lparr>trace := [Select (JNum (Fin 0))]\<rparr>)
     = (Inr ''x$stok'', w0\<lparr>trace := [Select (JNum (Fin 0)), BcryptHash (JStr ''tok'') (Fin 10)]\<rparr>)"
  by (simp add: bcrypt_hash_def io_def bc_hash0_def)

section \<open>storeOrUpdate: the write and the expiry\<close>

text \<open>
  C4. For a call whose arguments pass the check, with the database selected and the
  token hashed: the record goes out as one HMSET on the key with the fields
  \<open>token\<close> (the hash), \<open>origin\<close> (\<open>originUrl\<close>, or the empty string when that is
  falsy) and \<open>ttl\<close> (\<open>Date.now() + msToLive\<close>). When the reply to HMSET is an error,
  the callback gets that error and no EXPIRE is issued. When it is good, EXPIRE is
  issued next on the same key with \<open>Math.ceil(msToLive / 1000)\<close> seconds, and the
  callback gets the error of EXPIRE, or nothing when EXPIRE succeeded. For a numeric
  \<open>msToLive = r\<close> the field \<open>ttl\<close> is the sum of the time of the call and \<open>r\<close> as
  the runtime adds the two numbers, and the seconds are the quotient of \<open>r\<close> by
  1000 as the runtime divides, taken up to a whole number.
\<close>

theorem write_then_expire:
  assumes "truthy token" "truthy uid" "truthy msToLive" "isNumber E msToLive"
    and "private_select self w = (None, self1, w1)"
    and "bcrypt_hash E token (Fin 10) w1 = (Inr hashedToken, w2)"
    and "storeOrUpdate E token uid msToLive originUrl True self w = (out, self', w')"
    and "key = js_add E (self_tokenKey self) uid"
    and "written = [(''token'', JStr hashedToken), (''origin'', js_or originUrl (JStr '''')),
                    (''ttl'', js_add E (JNum (Fin (of_int (clock w)))) msToLive)]"
    and "secs = Math_ceil (jsnum_div E (toNumber E msToLive) 1000)"
  shows "(case faults w (length (trace w2)) of
            Some err \<Rightarrow> out = Calls (Some err) [] \<and> trace w' = trace w2 @ [Hmset key written]
          | None \<Rightarrow> trace w' = trace w2 @ [Hmset key written, Expire key secs]
                    \<and> out = Calls (faults w (Suc (length (trace w2)))) [])
         \<and> (\<forall>r. msToLive = JNum (Fin r) \<longrightarrow>
               map_of written ''ttl'' = Some (JNum (num_add E (of_int (clock w)) r))
               \<and> secs = Fin (of_int \<lceil>num_div E r 1000\<rceil>))"
proof -
  have "\<forall>r. msToLive = JNum (Fin r) \<longrightarrow>
               map_of written ''ttl'' = Some (JNum (num_add E (of_int (clock w)) r))
               \<and> secs = Fin (of_int \<lceil>num_div E r 1000\<rceil>)"
    using assms(9,10) by (simp add: js_add_def)
  then show ?thesis
    using storeOrUpdate_steps[OF assms] by blast
qed

text \<open>A token stored for a minute at time 5000: the four calls and their arguments.\<close>

theorem write_then_expire_witness:
  "fst (storeOrUpdate E0 (JStr ''tok'') (JStr ''bob'') (JNum (Fin 60000)) JNull True store0 w0)
     = Calls None []
   \<and> trace (snd (snd (storeOrUpdate E0 (JStr ''tok'') (JStr ''bob'') (JNum (Fin 60000)) JNull True store0 w0)))
     = [Select (JNum (Fin 0)), BcryptHash (JStr ''tok'') (Fin 10),
        Hmset (JStr ''pwdless:bob'')
          [(''token'', JStr ''x$stok''), (''origin'', JStr ''''), (''ttl'', JNum (Fin 65000))],
        Expire (JStr ''pwdless:bob'') (Fin 60)]"
proof -
  obtain out self' w' where
    res: "storeOrUpdate E0 (JStr ''tok'') (JStr ''bob'') (JNum (Fin 60000)) JNull True store0 w0 = (out, self', w')"
    by (cases "storeOrUpdate E0 (JStr ''tok'') (JStr ''bob'') (JNum (Fin 60000)) JNull True store0 w0") auto
  have v: "truthy (JStr ''tok'')" "truthy (JStr ''bob'')" "truthy (JNum (Fin 60000))"
          "isNumber E0 (JNum (Fin 60000))"
    by (simp_all add: isNumber_def isFinite_def)
  show ?thesis
    using write_then_expire[OF v store0_select store0_hash res refl refl refl] res
    by (simp add: js_add_def js_or_def)
qed

section \<open>A negative time to live\<close>

lemma storeOrUpdate_accepts:
  assumes "truthy token" "truthy uid" "truthy msToLive" "isNumber E msToLive"
  shows "fst (storeOrUpdate E token uid msToLive originUrl True self w) \<noteq> Throws err"
  using assms
  by (auto simp: storeOrUpdate_def Let_def split: prod.splits option.splits sum.splits)

lemma store0_hash_double:
  "bcrypt_hash E_double (JStr ''tok'') (Fin 10) (w0\<lparr>trace := [Select (JNum (Fin 0))]\<rparr>)
     = (Inr ''x$stok'', w0\<lparr>trace := [Select (JNum (Fin 0)), BcryptHash (JStr ''tok'') (Fin 10)]\<rparr>)"
  by (simp add: bcrypt_hash_def io_def bc_hash0_def)

lemma binade_5000: "binade (87960930222079999 / 17592186044416) = 12"
  by simp

lemma add_double_tiny: "add_double 5000 (- (1 / 17592186044416)) = Fin 5000"
  by (simp add: add_double_def Let_def binade_5000 round_even_def del: binade.simps)

text \<open>
  C10 (as amended). The check of \<open>storeOrUpdate\<close> asks that \<open>msToLive\<close> is truthy and
  a number, not that it is positive. For a non-empty token and user id and a negative
  finite \<open>msToLive = r\<close> the call never throws, in any store and world; and when the
  database is selected, the token is hashed and HMSET is not refused, the record is
  written with \<open>ttl\<close> the sum of the time of the call and \<open>r\<close> as the runtime adds
  the two numbers. Where that sum is exact, it is a time that has passed already.
\<close>

theorem negative_msToLive_is_stored:
  assumes "t \<noteq> []" "u \<noteq> []" "r < 0"
    and "private_select self w = (None, self1, w1)"
    and "bcrypt_hash E (JStr t) (Fin 10) w1 = (Inr hashedToken, w2)"
    and "faults w (length (trace w2)) = None"
    and "storeOrUpdate E (JStr t) (JStr u) (JNum (Fin r)) originUrl True self w = (out, self', w')"
  shows "(\<forall>S W err. fst (storeOrUpdate E (JStr t) (JStr u) (JNum (Fin r)) originUrl True S W) \<noteq> Throws err)
     \<and> Hmset (JStr (toString E (self_tokenKey self) @ u))
          [(''token'', JStr hashedToken), (''origin'', js_or originUrl (JStr '''')),
           (''ttl'', JNum (num_add E (of_int (clock w)) r))] \<in> set (trace w')
     \<and> (num_add E (of_int (clock w)) r = Fin (of_int (clock w) + r) \<longrightarrow>
          js_gt (Fin (of_int (clock w))) (num_add E (of_int (clock w)) r))"
proof -
  have v: "truthy (JStr t)" "truthy (JStr u)" "truthy (JNum (Fin r))" "isNumber E (JNum (Fin r))"
    using assms(1-3) by (simp_all add: isNumber_def isFinite_def)
  have "trace w' = trace w2 @
          [Hmset (js_add E (self_tokenKey self) (JStr u))
             [(''token'', JStr hashedToken), (''origin'', js_or originUrl (JStr '''')),
              (''ttl'', js_add E (JNum (Fin (of_int (clock w)))) (JNum (Fin r)))],
           Expire (js_add E (self_tokenKey self) (JStr u))
             (Math_ceil (jsnum_div E (toNumber E (JNum (Fin r))) 1000))]"
    using storeOrUpdate_steps[OF v assms(4,5,7) refl refl refl] assms(6) by simp
  then have "Hmset (JStr (toString E (self_tokenKey self) @ u))
          [(''token'', JStr hashedToken), (''origin'', js_or originUrl (JStr '''')),
           (''ttl'', JNum (num_add E (of_int (clock w)) r))] \<in> set (trace w')"
    by (simp add: js_add_def)
  moreover have "\<forall>S W err. fst (storeOrUpdate E (JStr t) (JStr u) (JNum (Fin r)) originUrl True S W) \<noteq> Throws err"
    using storeOrUpdate_accepts[OF v] by blast
  moreover have "num_add E (of_int (clock w)) r = Fin (of_int (clock w) + r) \<longrightarrow>
          js_gt (Fin (of_int (clock w))) (num_add E (of_int (clock w)) r)"
    using assms(3) by simp
  ultimately show ?thesis by blast
qed

text \<open>Half a second taken off the time 5000, where the sum is exact.\<close>

theorem negative_msToLive_witness:
  "fst (storeOrUpdate E0 (JStr ''tok'') (JStr ''bob'') (JNum (Fin (- 500))) JNull True store0 w0)
     \<noteq> Throws (Error ''TokenStore:storeOrUpdate called with invalid parameters'')
   \<and> Hmset (JStr ''pwdless:bob'')
        [(''token'', JStr ''x$stok''), (''origin'', JStr ''''), (''ttl'', JNum (Fin 4500))]
     \<in> set (trace (snd (snd (storeOrUpdate E0 (JStr ''tok'') (JStr ''bob'') (JNum (Fin (- 500))) JNull
                              True store0 w0))))
   \<and> js_gt (Fin (of_int (clock w0))) (Fin 4500)"
proof -
  obtain out self' w' where
    res: "storeOrUpdate E0 (JStr ''tok'') (JStr ''bob'') (JNum (Fin (- 500))) JNull True store0 w0 = (out, self', w')"
    by (cases "storeOrUpdate E0 (JStr ''tok'') (JStr ''bob'') (JNum (Fin (- 500))) JNull True store0 w0") auto
  have a: "''tok'' \<noteq> []" "''bob'' \<noteq> []" "(- 500 :: real) < 0"
    by simp_all
  have f: "faults w0 (length (trace (w0\<lparr>trace := [Select (JNum (Fin 0)), BcryptHash (JStr ''tok'') (Fin 10)]\<rparr>))) = None"
    by simp
  show ?thesis
    using negative_msToLive_is_stored[OF a store0_select store0_hash f res] res
    by (simp add: js_or_def) (metis fst_conv)
qed

text \<open>
  The stored time is not in the past for every negative \<open>msToLive\<close>. With the
  addition of doubles a negative number too small to change the sum leaves \<open>ttl\<close>
  at the time of the call: at time 5000, where neighbouring doubles are \<open>1 / 2 ^ 40\<close>
  apart, the sum of 5000 and \<open>- (1 / 2 ^ 44)\<close> is 5000, and the time of the call is
  not later than the stored one.
\<close>

theorem tiny_negative_msToLive_expires_now:
  "fst (storeOrUpdate E_double (JStr ''tok'') (JStr ''bob'') (JNum (Fin (- (1 / 2 ^ 44)))) JNull True
          store0 w0)
     \<noteq> Throws (Error ''TokenStore:storeOrUpdate called with invalid parameters'')
   \<and> Hmset (JStr ''pwdless:bob'')
        [(''token'', JStr ''x$stok''), (''origin'', JStr ''''), (''ttl'', JNum (Fin 5000))]
     \<in> set (trace (snd (snd (storeOrUpdate E_double (JStr ''tok'') (JStr ''bob'')
                              (JNum (Fin (- (1 / 2 ^ 44)))) JNull True store0 w0))))
   \<and> clock w0 = 5000
   \<and> \<not> js_gt (Fin (of_int (clock w0))) (Fin 5000)"
proof -
  obtain out self' w' where
    res: "storeOrUpdate E_double (JStr ''tok'') (JStr ''bob'') (JNum (Fin (- (1 / 2 ^ 44)))) JNull True
            store0 w0 = (out, self', w')"
    by (cases "storeOrUpdate E_double (JStr ''tok'') (JStr ''bob'') (JNum (Fin (- (1 / 2 ^ 44)))) JNull
                 True store0 w0") auto
  have v: "truthy (JStr ''tok'')" "truthy (JStr ''bob'')" "truthy (JNum (Fin (- (1 / 2 ^ 44))))"
          "isNumber E_double (JNum (Fin (- (1 / 2 ^ 44))))"
    by (simp_all add: isNumber_def isFinite_def)
  have "trace w' = [Select (JNum (Fin 0)), BcryptHash (JStr ''tok'') (Fin 10)] @
          [Hmset (js_add E_double (self_tokenKey store0) (JStr ''bob''))
             [(''token'', JStr ''x$stok''), (''origin'', js_or JNull (JStr '''')),
              (''ttl'', js_add E_double (JNum (Fin (of_int (clock w0)))) (JNum (Fin (- (1 / 2 ^ 44)))))],
           Expire (js_add E_double (self_tokenKey store0) (JStr ''bob''))
             (Math_ceil (jsnum_div E_double (toNumber E_double (JNum (Fin (- (1 / 2 ^ 44))))) 1000))]"
    using storeOrUpdate_steps[OF v store0_select store0_hash_double res refl refl refl] by simp
  then have "Hmset (JStr ''pwdless:bob'')
        [(''token'', JStr ''x$stok''), (''origin'', JStr ''''), (''ttl'', JNum (Fin 5000))]
     \<in> set (trace w')"
    by (simp add: js_add_def js_or_def add_double_tiny)
  moreover have "out \<noteq> Throws (Error ''TokenStore:storeOrUpdate called with invalid parameters'')"
    using storeOrUpdate_accepts[OF v, of JNull store0 w0] res by simp
  ultimately show ?thesis using res by simp
qed

section \<open>Clearing the namespace\<close>

lemma dom_delete_filter:
  "fst ` set (AList.delete k (filter P al)) \<subseteq> fst ` set al"
  using dom_delete_subset[of k "filter P al"] by auto

lemma client_del_unfold:
  "client_del E key w =
     (case faults w (length (trace w)) of
        Some err \<Rightarrow> (Some err, w\<lparr>trace := trace w @ [Del key]\<rparr>)
      | None \<Rightarrow> (None, w\<lparr>trace := trace w @ [Del key],
                         keyspace := AList.delete (toString E key)
                           (filter (\<lambda>kv. alive (clock w) (snd kv)) (keyspace w))\<rparr>))"
  by (simp add: client_del_def io_def Let_def purge_def split: option.splits)

lemma client_del_reply:
  assumes "client_del E key w = (r, w1)"
  shows "r = faults w (length (trace w)) \<and> trace w1 = trace w @ [Del key]
     \<and> clock w1 = clock w \<and> faults w1 = faults w \<and> salts w1 = salts w
     \<and> fst ` set (keyspace w1) \<subseteq> fst ` set (keyspace w)
     \<and> (r = None \<longrightarrow> toString E key \<notin> fst ` set (keyspace w1))"
proof (cases "faults w (length (trace w))")
  case None
  then show ?thesis
    using assms by (clarsimp simp: client_del_unfold dom_delete_filter delete_notin_dom)
next
  case (Some err)
  then show ?thesis
    using assms by (auto simp: client_del_unfold)
qed

lemma client_keys_reply:
  "client_keys E pattern w = (r, w1) \<Longrightarrow>
     trace w1 = trace w @ [Keys pattern]
     \<and> clock w1 = clock w \<and> faults w1 = faults w \<and> salts w1 = salts w
     \<and> (case faults w (length (trace w)) of
           Some err \<Rightarrow> r = Inl err \<and> keyspace w1 = keyspace w
         | None \<Rightarrow> r = Inr (filter (glob E (toString E pattern)) (map fst (keyspace (purge w))))
                    \<and> keyspace w1 = keyspace (purge w))"
  by (auto simp: client_keys_def io_def Let_def purge_def split: option.splits)

lemma each_del_world:
  "each_del E ms w = (r, w1) \<Longrightarrow>
     trace w1 = trace w @ map (\<lambda>m. Del (JStr m)) ms
     \<and> clock w1 = clock w \<and> faults w1 = faults w \<and> salts w1 = salts w
     \<and> fst ` set (keyspace w1) \<subseteq> fst ` set (keyspace w)"
proof (induction ms arbitrary: w r w1)
  case Nil
  then show ?case by simp
next
  case (Cons m ms)
  obtain r1 wa where d: "client_del E (JStr m) w = (r1, wa)"
    by (cases "client_del E (JStr m) w") auto
  obtain r2 wb where e: "each_del E ms wa = (r2, wb)"
    by (cases "each_del E ms wa") auto
  have w1: "w1 = wb" using Cons.prems d e by simp
  note a = client_del_reply[OF d]
  note b = Cons.IH[OF e]
  show ?case using a b by (auto simp: w1)
qed

lemma each_del_result:
  "each_del E ms w = (r, w1) \<Longrightarrow>
     (r = None \<longleftrightarrow> (\<forall>i<length ms. faults w (length (trace w) + i) = None))
     \<and> (\<forall>i err. i < length ms \<and> faults w (length (trace w) + i) = Some err
            \<and> (\<forall>j<i. faults w (length (trace w) + j) = None) \<longrightarrow> r = Some err)
     \<and> (r = None \<longrightarrow> (\<forall>m\<in>set ms. m \<notin> fst ` set (keyspace w1)))"
proof (induction ms arbitrary: w r w1)
  case Nil
  then show ?case by simp
next
  case (Cons m ms)
  obtain r1 wa where d: "client_del E (JStr m) w = (r1, wa)"
    by (cases "client_del E (JStr m) w") auto
  obtain r2 wb where e: "each_del E ms wa = (r2, wb)"
    by (cases "each_del E ms wa") auto
  have w1: "w1 = wb" and r: "r = (case r1 of Some err \<Rightarrow> Some err | None \<Rightarrow> r2)"
    using Cons.prems d e by simp_all
  note a = client_del_reply[OF d]
  note b = Cons.IH[OF e]
  note c = each_del_world[OF e]
  have tr: "length (trace wa) = Suc (length (trace w))" "faults wa = faults w"
    using a by simp_all
  have all_iff: "(\<forall>i<Suc (length ms). faults w (length (trace w) + i) = None)
      \<longleftrightarrow> faults w (length (trace w)) = None \<and> (\<forall>i<length ms. faults w (Suc (length (trace w)) + i) = None)"
    by (auto simp: less_Suc_eq_0_disj)
  have p1: "r = None \<longleftrightarrow> (\<forall>i<length (m # ms). faults w (length (trace w) + i) = None)"
    using a b all_iff by (auto simp: r tr split: option.splits)
  have p2: "\<forall>i err. i < length (m # ms) \<and> faults w (length (trace w) + i) = Some err
            \<and> (\<forall>j<i. faults w (length (trace w) + j) = None) \<longrightarrow> r = Some err"
  proof (intro allI impI)
    fix i err
    assume h: "i < length (m # ms) \<and> faults w (length (trace w) + i) = Some err
            \<and> (\<forall>j<i. faults w (length (trace w) + j) = None)"
    show "r = Some err"
    proof (cases i)
      case 0
      then show ?thesis using h a by (simp add: r)
    next
      case (Suc k)
      then have r1: "r1 = None" using h a by auto
      have "k < length ms" "faults wa (length (trace wa) + k) = Some err"
        "\<forall>j<k. faults wa (length (trace wa) + j) = None"
        using h Suc tr by (auto simp: Suc_less_eq2)
      then have "r2 = Some err" using b by blast
      then show ?thesis by (simp add: r r1)
    qed
  qed
  have p3: "r = None \<longrightarrow> (\<forall>x\<in>set (m # ms). x \<notin> fst ` set (keyspace w1))"
  proof
    assume n: "r = None"
    then have r1: "r1 = None" and r2: "r2 = None" by (auto simp: r split: option.splits)
    have "m \<notin> fst ` set (keyspace wa)" using a r1 by simp
    then have "m \<notin> fst ` set (keyspace wb)" using c by blast
    moreover have "\<forall>x\<in>set ms. x \<notin> fst ` set (keyspace wb)" using b r2 by blast
    ultimately show "\<forall>x\<in>set (m # ms). x \<notin> fst ` set (keyspace w1)" by (simp add: w1)
  qed
  show ?case using p1 p2 p3 by blast
qed

text \<open>
  C9. With the database selected, \<open>clear\<close> asks for the keys that match the prefix
  followed by a star. When KEYS fails, the callback gets that error and nothing is
  deleted. Otherwise one DEL is issued for every match, in order. With no match
  nothing is issued, the callback gets no error and the keys are as the server had
  them. When every DEL succeeds the callback gets no error and no match is a key any
  more; when some DEL fails the callback gets the error of the first one that failed.
\<close>

theorem clear_deletes_every_match:
  assumes "private_select self w = (None, self1, w1)"
    and "clear E True self w = (out, self', w')"
    and "pattern = js_add E (self_tokenKey self) (JStr ''*'')"
    and "matches = filter (glob E (toString E pattern)) (map fst (keyspace (purge w1)))"
    and "n = length (trace w1)"
  shows "(\<forall>err. faults w n = Some err \<longrightarrow>
            out = Calls (Some err) [] \<and> trace w' = trace w1 @ [Keys pattern])
     \<and> (faults w n = None \<longrightarrow>
            trace w' = trace w1 @ Keys pattern # map (\<lambda>m. Del (JStr m)) matches
          \<and> (matches = [] \<longrightarrow> out = Calls None [] \<and> keyspace w' = keyspace (purge w1))
          \<and> ((\<forall>i<length matches. faults w (Suc n + i) = None) \<longrightarrow>
                out = Calls None [] \<and> (\<forall>m\<in>set matches. m \<notin> fst ` set (keyspace w')))
          \<and> (\<forall>i err. i < length matches \<and> faults w (Suc n + i) = Some err
                  \<and> (\<forall>j<i. faults w (Suc n + j) = None) \<longrightarrow> out = Calls (Some err) []))"
proof -
  note sw = private_select_world[OF assms(1)]
  have pat: "js_add E (self_tokenKey self1) (JStr ''*'') = pattern"
    by (simp add: assms(3) sw)
  obtain r2 w2 where k: "client_keys E pattern w1 = (r2, w2)"
    by (cases "client_keys E pattern w1") auto
  note kr = client_keys_reply[OF k]
  show ?thesis
  proof (cases "faults w n")
    case (Some err)
    then have "r2 = Inl err" using kr by (simp add: sw assms(5))
    then have "clear E True self w = (Calls (Some err) [], self1, w2)"
      using assms(1) k by (simp add: clear_def pat)
    then show ?thesis using Some assms(2) kr by simp
  next
    case None
    then have r2: "r2 = Inr matches" and ks: "keyspace w2 = keyspace (purge w1)"
      using kr by (simp_all add: sw assms(4,5))
    obtain r3 w3 where e: "each_del E matches w2 = (r3, w3)"
      by (cases "each_del E matches w2") auto
    note ew = each_del_world[OF e]
    note er = each_del_result[OF e]
    have idx: "length (trace w2) = Suc n" "faults w2 = faults w"
      using kr by (simp_all add: assms(5) sw)
    have cl: "clear E True self w
        = (if length matches > 0 then (Calls r3 [], self1, w3) else (Calls None [], self1, w2))"
      using assms(1) k e by (simp add: clear_def pat r2)
    have tr: "trace w' = trace w1 @ Keys pattern # map (\<lambda>m. Del (JStr m)) matches"
      using cl assms(2) kr ew by (cases matches) auto
    have empty: "matches = [] \<longrightarrow> out = Calls None [] \<and> keyspace w' = keyspace (purge w1)"
      using cl assms(2) ks by auto
    have good: "(\<forall>i<length matches. faults w (Suc n + i) = None) \<longrightarrow>
                out = Calls None [] \<and> (\<forall>m\<in>set matches. m \<notin> fst ` set (keyspace w'))"
    proof
      assume a: "\<forall>i<length matches. faults w (Suc n + i) = None"
      then have "r3 = None" using er by (simp add: idx)
      then show "out = Calls None [] \<and> (\<forall>m\<in>set matches. m \<notin> fst ` set (keyspace w'))"
        using er cl assms(2) by (cases matches) auto
    qed
    have bad: "\<forall>i err. i < length matches \<and> faults w (Suc n + i) = Some err
                  \<and> (\<forall>j<i. faults w (Suc n + j) = None) \<longrightarrow> out = Calls (Some err) []"
    proof (intro allI impI)
      fix i err
      assume a: "i < length matches \<and> faults w (Suc n + i) = Some err
                  \<and> (\<forall>j<i. faults w (Suc n + j) = None)"
      then have "r3 = Some err" using er by (simp add: idx)
      moreover have "length matches > 0" using a by auto
      ultimately show "out = Calls (Some err) []" using cl assms(2) by simp
    qed
    show ?thesis using None tr empty good bad by simp
  qed
qed

lemma w_keys_select:
  "private_select store0 w_keys
     = (None, store0\<lparr>self_selected := True\<rparr>, w_keys\<lparr>trace := [Select (JNum (Fin 0))]\<rparr>)"
  by (simp add: private_select_def client_select_def io_def w_keys_def)

lemma w_keys_matches:
  "filter (glob E0 (toString E0 (js_add E0 (self_tokenKey store0) (JStr ''*''))))
      (map fst (keyspace (purge (w_keys\<lparr>trace := [Select (JNum (Fin 0))]\<rparr>))))
     = [''pwdless:ann'', ''pwdless:bob'']"
  by (simp add: js_add_def glob0_def purge_def w_keys_def alive_def)

text \<open>Three keys, two of them under the prefix: both are deleted, the third is not asked for.\<close>

theorem clear_witness:
  "fst (clear E0 True store0 w_keys) = Calls None []
   \<and> trace (snd (snd (clear E0 True store0 w_keys)))
      = [Select (JNum (Fin 0)), Keys (JStr ''pwdless:*''),
         Del (JStr ''pwdless:ann''), Del (JStr ''pwdless:bob'')]
   \<and> ''pwdless:ann'' \<notin> fst ` set (keyspace (snd (snd (clear E0 True store0 w_keys))))
   \<and> ''pwdless:bob'' \<notin> fst ` set (keyspace (snd (snd (clear E0 True store0 w_keys))))"
proof -
  obtain out self' w' where res: "clear E0 True store0 w_keys = (out, self', w')"
    by (cases "clear E0 True store0 w_keys") auto
  have f: "faults w_keys = (\<lambda>n. None)"
    by (simp add: w_keys_def)
  show ?thesis
    using clear_deletes_every_match[OF w_keys_select res refl w_keys_matches[symmetric] refl] res f
    by (simp add: js_add_def)
qed

section \<open>The record a successful storeOrUpdate leaves\<close>

lemma map_of_filter_keep:
  "map_of al k = Some e \<Longrightarrow> P (k, e) \<Longrightarrow> map_of (filter P al) k = Some e"
  by (induction al) (auto split: if_splits)

lemma map_of_set_fields3:
  "map_of (set_fields E [(a, x), (b, y), (c, z)] fs)
     = (map_of fs)(a \<mapsto> toString E x, b \<mapsto> toString E y, c \<mapsto> toString E z)"
  by (simp add: set_fields_def update_conv')

lemma fresh_purge: "fresh (purge w)"
  by (simp add: fresh_def purge_def)

lemma purge_fresh: "fresh w \<Longrightarrow> purge w = w"
  by (simp add: fresh_def purge_def)

lemma fresh_trace [simp]: "fresh (w\<lparr>trace := t\<rparr>) = fresh w"
  by (simp add: fresh_def)

lemma distinct_purge:
  "distinct (map fst (keyspace w)) \<Longrightarrow> distinct (map fst (keyspace (purge w)))"
  by (simp add: purge_def distinct_map_filter)

lemma set_update_subset: "set (AList.update k v al) \<subseteq> insert (k, v) (set al)"
  by (induction al) auto

lemma fresh_update:
  assumes "fresh w" "alive (clock w) e"
  shows "fresh (w\<lparr>keyspace := AList.update k e (keyspace w)\<rparr>)"
  using assms set_update_subset[of k e "keyspace w"]
  by (auto simp: fresh_def)

lemma client_hmset_ok:
  assumes "client_hmset E key obj w = (None, w1)"
  shows "fresh w1"
    and "\<exists>old. map_of (keyspace w1) (toString E key) = Some (old\<lparr>hfields := set_fields E obj (hfields old)\<rparr>)"
    and "distinct (map fst (keyspace w)) \<Longrightarrow> distinct (map fst (keyspace w1))"
proof -
  let ?w2 = "purge (w\<lparr>trace := trace w @ [Hmset key obj]\<rparr>)"
  let ?k = "toString E key"
  let ?e = "case map_of (keyspace ?w2) ?k of
              None \<Rightarrow> \<lparr>hfields = set_fields E obj [], expire_at = None\<rparr>
            | Some old \<Rightarrow> old\<lparr>hfields := set_fields E obj (hfields old)\<rparr>"
  from assms have w1: "w1 = ?w2\<lparr>keyspace := AList.update ?k ?e (keyspace ?w2)\<rparr>"
    by (auto simp: client_hmset_def io_def Let_def split: option.splits)
  have al: "alive (clock ?w2) ?e"
  proof (cases "map_of (keyspace ?w2) ?k")
    case None
    then show ?thesis by (simp add: alive_def)
  next
    case (Some old)
    then have "(?k, old) \<in> set (keyspace ?w2)" by (rule map_of_SomeD)
    then have "alive (clock w) old" by (auto simp: purge_def)
    then show ?thesis using Some by (simp add: alive_def)
  qed
  show "fresh w1"
    unfolding w1 by (rule fresh_update[OF fresh_purge al])
  show "\<exists>old. map_of (keyspace w1) ?k = Some (old\<lparr>hfields := set_fields E obj (hfields old)\<rparr>)"
  proof (cases "map_of (keyspace ?w2) ?k")
    case None
    have "map_of (keyspace w1) ?k
        = Some (\<lparr>hfields = [], expire_at = None\<rparr>\<lparr>hfields := set_fields E obj (hfields \<lparr>hfields = [], expire_at = None\<rparr>)\<rparr>)"
      using None by (simp add: w1 update_conv')
    then show ?thesis by blast
  next
    case (Some old)
    then have "map_of (keyspace w1) ?k = Some (old\<lparr>hfields := set_fields E obj (hfields old)\<rparr>)"
      by (simp add: w1 update_conv')
    then show ?thesis by blast
  qed
  show "distinct (map fst (keyspace w1))" if "distinct (map fst (keyspace w))"
  proof -
    have "distinct (map fst (keyspace ?w2))"
      using that distinct_purge[of "w\<lparr>trace := trace w @ [Hmset key obj]\<rparr>"] by simp
    then show ?thesis by (simp add: w1 distinct_update)
  qed
qed

lemma client_expire_ok:
  assumes "client_expire E key (Fin (of_int n)) w = (None, w1)" "0 < n" "fresh w"
    and "map_of (keyspace w) (toString E key) = Some e"
  shows "keyspace w1 = AList.update (toString E key) (e\<lparr>expire_at := Some (clock w + n * 1000)\<rparr>) (keyspace w)"
    and "fresh w1"
proof -
  have p: "purge (w\<lparr>trace := trace w @ [Expire key (Fin (of_int n))]\<rparr>)
      = w\<lparr>trace := trace w @ [Expire key (Fin (of_int n))]\<rparr>"
    using assms(3) by (simp add: purge_fresh)
  have w1: "w1 = w\<lparr>trace := trace w @ [Expire key (Fin (of_int n))],
                  keyspace := AList.update (toString E key) (e\<lparr>expire_at := Some (clock w + n * 1000)\<rparr>) (keyspace w)\<rparr>"
    using assms(1,2,4) by (auto simp: client_expire_def io_def Let_def p split: option.splits if_splits)
  show "keyspace w1 = AList.update (toString E key) (e\<lparr>expire_at := Some (clock w + n * 1000)\<rparr>) (keyspace w)"
    by (simp add: w1)
  have "alive (clock w) (e\<lparr>expire_at := Some (clock w + n * 1000)\<rparr>)"
    using assms(2) by (simp add: alive_def)
  then have "fresh (w\<lparr>keyspace := AList.update (toString E key) (e\<lparr>expire_at := Some (clock w + n * 1000)\<rparr>) (keyspace w)\<rparr>)"
    by (rule fresh_update[OF assms(3)])
  then show "fresh w1" by (simp add: w1 fresh_def)
qed

lemma bcrypt_hash_Inr:
  assumes "bcrypt_hash E (JStr t) n w = (Inr h, w1)"
  shows "h = bc_hash E t n (salts w (length (trace w)))"
  using assms by (auto simp: bcrypt_hash_def io_def split: option.splits)

lemma private_select_trace:
  assumes "private_select self w = (None, self1, w1)"
  shows "self_selected self1"
    and "length (trace w1) = length (trace w) + (if self_selected self then 0 else 1)"
  using assms
  by (auto simp: private_select_def client_select_def io_def split: if_splits option.splits)

text \<open>
  After a call of \<open>storeOrUpdate\<close> with a positive number of milliseconds that ended
  with \<open>callback()\<close>: the key of the user holds the hash of the token under the salt
  drawn at the call of bcrypt, the origin, the time of expiry (the sum of the time
  of the call and \<open>r\<close>) as a string, and the server drops the key after the
  seconds of the call of EXPIRE, the quotient of \<open>r\<close> by 1000 taken up to a whole
  number, which is positive.
\<close>

lemma storeOrUpdate_stored:
  assumes r: "0 < r"
    and q: "0 < num_div E r 1000"
    and res: "storeOrUpdate E (JStr t) (JStr u) (JNum (Fin r)) originUrl True self w = (Calls None [], self', w')"
  shows "self_selected self'" "self_tokenKey self' = self_tokenKey self"
    and "clock w' = clock w" "faults w' = faults w" "salts w' = salts w"
    and "fresh w'"
    and "length (trace w') = length (trace w) + (if self_selected self then 3 else 4)"
    and "\<exists>e. map_of (keyspace w') (toString E (self_tokenKey self) @ u) = Some e
           \<and> map_of (hfields e) ''token''
               = Some (bc_hash E t (Fin 10)
                   (salts w (length (trace w) + (if self_selected self then 0 else 1))))
           \<and> map_of (hfields e) ''origin'' = Some (toString E (js_or originUrl (JStr '''')))
           \<and> map_of (hfields e) ''ttl'' = Some (num_str E (num_add E (of_int (clock w)) r))
           \<and> expire_at e = Some (clock w + \<lceil>num_div E r 1000\<rceil> * 1000)"
    and "distinct (map fst (keyspace w)) \<Longrightarrow> distinct (map fst (keyspace w'))"
proof -
  have guard: "truthy (JStr t)" "truthy (JStr u)"
    using res by (auto simp: storeOrUpdate_def split: if_splits)
  have v: "truthy (JNum (Fin r))" "isNumber E (JNum (Fin r))"
    using r by (simp_all add: isNumber_def isFinite_def)
  obtain r0 self1 w1 where sel0: "private_select self w = (r0, self1, w1)"
    by (cases "private_select self w") auto
  have r0: "r0 = None"
    using res guard v sel0 by (cases r0) (auto simp: storeOrUpdate_def)
  note sel = sel0[unfolded r0]
  obtain hr w2 where hash0: "bcrypt_hash E (JStr t) (Fin 10) w1 = (hr, w2)"
    by (cases "bcrypt_hash E (JStr t) (Fin 10) w1") auto
  obtain h where hr: "hr = Inr h"
    using res guard v sel hash0 by (cases hr) (auto simp: storeOrUpdate_def)
  note hash = hash0[unfolded hr]
  let ?key = "js_add E (self_tokenKey self1) (JStr u)"
  let ?obj = "[(''token'', JStr h), (''origin'', js_or originUrl (JStr '''')),
               (''ttl'', js_add E (JNum (Fin (of_int (clock w2)))) (JNum (Fin r)))]"
  obtain f3 w3 where hm0: "client_hmset E ?key ?obj w2 = (f3, w3)"
    by (cases "client_hmset E ?key ?obj w2") auto
  have f3: "f3 = None"
    using res guard v sel hash hm0 by (cases f3) (auto simp: storeOrUpdate_def Let_def)
  note hm = hm0[unfolded f3]
  obtain f4 w4 where ex0: "client_expire E ?key (Fin (of_int \<lceil>num_div E r 1000\<rceil>)) w3 = (f4, w4)"
    by (cases "client_expire E ?key (Fin (of_int \<lceil>num_div E r 1000\<rceil>)) w3") auto
  have out: "(Calls None [], self', w')
      = ((case f4 of Some err \<Rightarrow> Calls (Some err) [] | None \<Rightarrow> Calls None []), self1, w4)"
    using res guard v sel hash hm ex0
    by (simp add: storeOrUpdate_def Let_def split: option.splits)
  then have f4: "f4 = None" and self': "self' = self1" and w': "w' = w4"
    by (auto split: option.splits)
  note ex = ex0[unfolded f4]
  note sw = private_select_world[OF sel] private_select_trace[OF sel]
  note hw = bcrypt_hash_world[OF hash]
  note h3 = client_hmset_reply[OF hm] client_hmset_ok[OF hm]
  note h4 = client_expire_reply[OF ex]
  have key: "toString E ?key = toString E (self_tokenKey self) @ u"
    by (simp add: js_add_def sw)
  from h3(3) obtain old where
    old: "map_of (keyspace w3) (toString E ?key) = Some (old\<lparr>hfields := set_fields E ?obj (hfields old)\<rparr>)"
    by blast
  have pos: "0 < \<lceil>num_div E r 1000\<rceil>" using q by simp
  note x4 = client_expire_ok[OF ex pos h3(2) old]
  show "self_selected self'" "self_tokenKey self' = self_tokenKey self"
    by (simp_all add: self' sw)
  show "clock w' = clock w" "faults w' = faults w" "salts w' = salts w"
    using h4 h3(1) by (simp_all add: w' hw sw)
  show "fresh w'" by (simp add: w' x4)
  show "length (trace w') = length (trace w) + (if self_selected self then 3 else 4)"
    using h4 h3(1) by (simp add: w' hw sw)
  have hval: "h = bc_hash E t (Fin 10) (salts w (length (trace w) + (if self_selected self then 0 else 1)))"
    using bcrypt_hash_Inr[OF hash] by (simp add: sw)
  have ck: "clock w3 = clock w" "clock w2 = clock w"
    using h3(1) by (simp_all add: hw sw)
  let ?e = "old\<lparr>hfields := set_fields E ?obj (hfields old),
                 expire_at := Some (clock w + \<lceil>num_div E r 1000\<rceil> * 1000)\<rparr>"
  have "map_of (keyspace w') (toString E (self_tokenKey self) @ u) = Some ?e"
    using x4(1) by (simp add: w' key update_conv' ck)
  moreover have "map_of (hfields ?e) ''token'' = Some (bc_hash E t (Fin 10)
                   (salts w (length (trace w) + (if self_selected self then 0 else 1))))"
    "map_of (hfields ?e) ''origin'' = Some (toString E (js_or originUrl (JStr '''')))"
    "map_of (hfields ?e) ''ttl'' = Some (num_str E (num_add E (of_int (clock w)) r))"
    "expire_at ?e = Some (clock w + \<lceil>num_div E r 1000\<rceil> * 1000)"
    by (simp_all add: map_of_set_fields3 hval[symmetric] js_add_def ck)
  ultimately show "\<exists>e. map_of (keyspace w') (toString E (self_tokenKey self) @ u) = Some e
           \<and> map_of (hfields e) ''token''
               = Some (bc_hash E t (Fin 10)
                   (salts w (length (trace w) + (if self_selected self then 0 else 1))))
           \<and> map_of (hfields e) ''origin'' = Some (toString E (js_or originUrl (JStr '''')))
           \<and> map_of (hfields e) ''ttl'' = Some (num_str E (num_add E (of_int (clock w)) r))
           \<and> expire_at e = Some (clock w + \<lceil>num_div E r 1000\<rceil> * 1000)"
    by blast
  show "distinct (map fst (keyspace w'))" if d: "distinct (map fst (keyspace w))"
  proof -
    have "distinct (map fst (keyspace w2))" using d by (simp add: hw sw)
    then have "distinct (map fst (keyspace w3))" by (rule h3(4))
    then show ?thesis using x4(1) by (simp add: w' distinct_update)
  qed
qed

section \<open>What authenticate answers\<close>

lemma map_of_filter_absent:
  "k \<notin> fst ` set al \<Longrightarrow> map_of (filter P al) k = None"
  by (induction al) (auto split: if_splits)

lemma client_hgetall_unfold:
  "faults w (length (trace w)) = None \<Longrightarrow>
     client_hgetall E key w
       = (Inr (map_option hfields
                 (map_of (filter (\<lambda>kv. alive (clock w) (snd kv)) (keyspace w)) (toString E key))),
          purge (w\<lparr>trace := trace w @ [Hgetall key]\<rparr>))"
  by (simp add: client_hgetall_def io_def Let_def purge_def)

lemma bcrypt_compare_unfold:
  "faults w (length (trace w)) = None \<Longrightarrow>
     bcrypt_compare E (JStr t) (JStr h) w
       = (Inr (bc_compare E t h), w\<lparr>trace := trace w @ [BcryptCompare (JStr t) (JStr h)]\<rparr>)"
  by (simp add: bcrypt_compare_def io_def)

text \<open>What \<open>authenticate\<close> answers once the database is selected and HGETALL is served.\<close>

lemma authenticate_served:
  assumes "t \<noteq> []" "u \<noteq> []"
    and sel: "private_select self w = (None, self1, w1)"
    and get: "faults w (length (trace w1)) = None"
    and key: "key = toString E (self_tokenKey self) @ u"
    and ks: "found = map_of (filter (\<lambda>kv. alive (clock w) (snd kv)) (keyspace w)) key"
  shows "found = None \<Longrightarrow>
           fst (authenticate E (JStr t) (JStr u) True self w) = Calls None [JBool False, JNull]"
    and "found = Some e \<Longrightarrow> js_gt (Fin (of_int (clock w))) (toNumber E (obj_get (hfields e) ''ttl'')) \<Longrightarrow>
           fst (authenticate E (JStr t) (JStr u) True self w) = Calls None [JBool False, JNull]"
    and "found = Some e \<Longrightarrow> \<not> js_gt (Fin (of_int (clock w))) (toNumber E (obj_get (hfields e) ''ttl'')) \<Longrightarrow>
           map_of (hfields e) ''token'' = Some h \<Longrightarrow> faults w (Suc (length (trace w1))) = None \<Longrightarrow>
           fst (authenticate E (JStr t) (JStr u) True self w)
             = (if bc_compare E t h then Calls None [JBool True, obj_get (hfields e) ''origin'']
                else Calls None [JBool False, JNull])"
    and "fst (authenticate E (JStr t) (JStr u) True self w) = Calls None [JBool True, origin] \<Longrightarrow>
           \<exists>e h. found = Some e
             \<and> \<not> js_gt (Fin (of_int (clock w))) (toNumber E (obj_get (hfields e) ''ttl''))
             \<and> map_of (hfields e) ''token'' = Some h \<and> bc_compare E t h
             \<and> origin = obj_get (hfields e) ''origin''"
proof -
  note sw = private_select_world[OF sel]
  have k: "toString E (js_add E (self_tokenKey self1) (JStr u)) = key"
    "toString E (js_add E (self_tokenKey self) (JStr u)) = key"
    by (simp_all add: js_add_def key sw)
  have g: "client_hgetall E (js_add E (self_tokenKey self1) (JStr u)) w1
       = (Inr (map_option hfields found),
          purge (w1\<lparr>trace := trace w1 @ [Hgetall (js_add E (self_tokenKey self1) (JStr u))]\<rparr>))"
    using get by (simp add: client_hgetall_unfold sw k ks)
  let ?w2 = "purge (w1\<lparr>trace := trace w1 @ [Hgetall (js_add E (self_tokenKey self1) (JStr u))]\<rparr>)"
  have c2: "clock ?w2 = clock w" "length (trace ?w2) = Suc (length (trace w1))" "faults ?w2 = faults w"
    by (simp_all add: sw)
  show "fst (authenticate E (JStr t) (JStr u) True self w) = Calls None [JBool False, JNull]"
    if "found = None"
    using that assms(1,2) sel g by (simp add: authenticate_def Let_def)
  show "fst (authenticate E (JStr t) (JStr u) True self w) = Calls None [JBool False, JNull]"
    if "found = Some e" "js_gt (Fin (of_int (clock w))) (toNumber E (obj_get (hfields e) ''ttl''))"
    using that assms(1,2) sel g by (simp add: authenticate_def Let_def c2 sw)
  show "fst (authenticate E (JStr t) (JStr u) True self w)
             = (if bc_compare E t h then Calls None [JBool True, obj_get (hfields e) ''origin'']
                else Calls None [JBool False, JNull])"
    if "found = Some e" "\<not> js_gt (Fin (of_int (clock w))) (toNumber E (obj_get (hfields e) ''ttl''))"
      "map_of (hfields e) ''token'' = Some h" "faults w (Suc (length (trace w1))) = None"
  proof -
    have "bcrypt_compare E (JStr t) (JStr h) ?w2
        = (Inr (bc_compare E t h), ?w2\<lparr>trace := trace ?w2 @ [BcryptCompare (JStr t) (JStr h)]\<rparr>)"
      using that(4) by (intro bcrypt_compare_unfold) (simp add: sw)
    then show ?thesis
      using that(1-3) assms(1,2) sel g
      by (simp add: authenticate_def Let_def c2 sw obj_get_def)
  qed
  show "\<exists>e h. found = Some e
             \<and> \<not> js_gt (Fin (of_int (clock w))) (toNumber E (obj_get (hfields e) ''ttl''))
             \<and> map_of (hfields e) ''token'' = Some h \<and> bc_compare E t h
             \<and> origin = obj_get (hfields e) ''origin''"
    if a: "fst (authenticate E (JStr t) (JStr u) True self w) = Calls None [JBool True, origin]"
  proof (cases found)
    case None
    then show ?thesis using a assms(1,2) sel g by (simp add: authenticate_def Let_def)
  next
    case (Some e)
    show ?thesis
      using a assms(1,2) sel g Some
      by (auto simp: authenticate_def Let_def c2 sw obj_get_def bcrypt_compare_def io_def
          split: if_splits option.splits prod.splits sum.splits jsval.splits)
  qed
qed

section \<open>Round trip\<close>

lemma tick_proj [simp]:
  "clock (tick d w) = clock w + d" "keyspace (tick d w) = keyspace w" "trace (tick d w) = trace w"
  "faults (tick d w) = faults w" "salts (tick d w) = salts w"
  by (simp_all add: tick_def)

lemma ceil_covers: "of_int d \<le> (r::real) \<Longrightarrow> d \<le> \<lceil>r / 1000\<rceil> * 1000"
proof -
  assume a: "of_int d \<le> r"
  have "r \<le> of_int \<lceil>r / 1000\<rceil> * 1000"
    using le_of_int_ceiling[of "r / 1000"] by linarith
  then have "r \<le> of_int (\<lceil>r / 1000\<rceil> * 1000)" by simp
  then have "(of_int d :: real) \<le> of_int (\<lceil>r / 1000\<rceil> * 1000)" using a by linarith
  then show ?thesis by (simp only: of_int_le_iff)
qed

text \<open>
  In an environment whose sums and quotients are exact, a check that comes \<open>d \<le> r\<close>
  milliseconds after a call with \<open>r > 0\<close> comes before the time of expiry and within
  the seconds given to EXPIRE.
\<close>

lemma exact_arithmetic_before_expiry:
  assumes "num_add E = (\<lambda>a b. Fin (a + b))" "num_div E = (\<lambda>a b. a / b)"
    and "0 < r" "of_int d \<le> r"
  shows "num_add E (of_int c) r = Fin (of_int c + r)" "of_int (c + d) \<le> of_int c + r"
    and "0 < num_div E r 1000" "d \<le> \<lceil>num_div E r 1000\<rceil> * 1000"
  using assms ceil_covers[of d r] by simp_all

text \<open>
  C1. A token stored for \<open>r > 0\<close> milliseconds and checked \<open>d \<ge> 0\<close> milliseconds
  later, before it expires, with the same token and user id: \<open>authenticate\<close> calls
  back with no error, \<open>true\<close> and the stored origin, which is the origin passed when
  that is a string and the empty string when it is missing. The hypotheses say what
  the claim takes for granted of the collaborators: the store call ended with
  \<open>callback()\<close>, the two calls of \<open>authenticate\<close> are not failed by the environment,
  bcrypt accepts a token against its own hash, and the time of expiry survives being
  written as a string and read back. Before it expires: the time of expiry is the
  sum \<open>x\<close> that the runtime makes of the time of the call and \<open>r\<close>, and the check
  comes no later than \<open>x\<close>; the seconds given to EXPIRE are the quotient that the
  runtime makes of \<open>r\<close> and 1000, taken up to a whole number, they are positive
  and the check comes within them. Where the sum and the quotient are exact, that
  is the case for every \<open>d \<le> r\<close>.
\<close>

theorem store_then_authenticate:
  assumes "t \<noteq> []" "u \<noteq> []" "0 < r"
    and "storeOrUpdate E (JStr t) (JStr u) (JNum (Fin r)) originUrl True self w = (Calls None [], self1, w1)"
    and "0 \<le> d"
    and "num_add E (of_int (clock w)) r = Fin x" "of_int (clock w + d) \<le> x"
    and "0 < num_div E r 1000" "d \<le> \<lceil>num_div E r 1000\<rceil> * 1000"
    and "faults w (length (trace w1)) = None" "faults w (Suc (length (trace w1))) = None"
    and "\<forall>salt. bc_compare E t (bc_hash E t (Fin 10) salt)"
    and "str_num E (num_str E (Fin x)) = Fin x"
  shows "fst (authenticate E (JStr t) (JStr u) True self1 (tick d w1))
           = Calls None [JBool True, JStr (toString E (js_or originUrl (JStr '''')))]
         \<and> (\<forall>origin. originUrl = JStr origin \<longrightarrow> toString E (js_or originUrl (JStr '''')) = origin)"
proof -
  note st = storeOrUpdate_stored[OF assms(3,8,4)]
  from st(8) obtain e where e: "map_of (keyspace w1) (toString E (self_tokenKey self) @ u) = Some e"
    and tok: "map_of (hfields e) ''token''
               = Some (bc_hash E t (Fin 10)
                   (salts w (length (trace w) + (if self_selected self then 0 else 1))))"
    and org: "map_of (hfields e) ''origin'' = Some (toString E (js_or originUrl (JStr '''')))"
    and ttl: "map_of (hfields e) ''ttl'' = Some (num_str E (num_add E (of_int (clock w)) r))"
    and ex: "expire_at e = Some (clock w + \<lceil>num_div E r 1000\<rceil> * 1000)"
    by blast
  let ?w = "tick d w1"
  have sel: "private_select self1 ?w = (None, self1, ?w)"
    using st(1) by (simp add: private_select_selected)
  have al: "alive (clock ?w) e"
    using assms(9) by (simp add: alive_def ex st)
  have found: "Some e = map_of (filter (\<lambda>kv. alive (clock ?w) (snd kv)) (keyspace ?w))
                  (toString E (self_tokenKey self1) @ u)"
    using map_of_filter_keep[OF e, of "\<lambda>kv. alive (clock ?w) (snd kv)"] al
    by (simp add: st)
  have notexp: "\<not> js_gt (Fin (of_int (clock ?w))) (toNumber E (obj_get (hfields e) ''ttl''))"
    using assms(7,13) by (simp add: obj_get_def ttl st assms(6))
  have "fst (authenticate E (JStr t) (JStr u) True self1 ?w)
      = (if bc_compare E t (bc_hash E t (Fin 10)
                   (salts w (length (trace w) + (if self_selected self then 0 else 1))))
         then Calls None [JBool True, obj_get (hfields e) ''origin'']
         else Calls None [JBool False, JNull])"
    using authenticate_served(3)[OF assms(1,2) sel _ refl found refl notexp tok] assms(10,11)
    by (simp add: st)
  then have "fst (authenticate E (JStr t) (JStr u) True self1 ?w)
           = Calls None [JBool True, JStr (toString E (js_or originUrl (JStr '''')))]"
    using assms(12) by (simp add: obj_get_def org)
  moreover have "\<forall>origin. originUrl = JStr origin \<longrightarrow> toString E (js_or originUrl (JStr '''')) = origin"
    by (auto simp: js_or_def)
  ultimately show ?thesis by blast
qed

lemma bc0_strokes:
  "takeWhile (\<lambda>c. c \<noteq> CHR ''$'') (bc_hash0 s n salt) = replicate (length salt) CHR ''x''"
proof -
  have "takeWhile (\<lambda>c. c \<noteq> CHR ''$'') (replicate (length salt) CHR ''x'' @ CHR ''$'' # salt @ s)
      = replicate (length salt) CHR ''x'' @ takeWhile (\<lambda>c. c \<noteq> CHR ''$'') (CHR ''$'' # salt @ s)"
    by (rule takeWhile_append2) simp
  then show ?thesis by (simp add: bc_hash0_def)
qed

lemma bc0_exact: "bc_compare0 s (bc_hash0 s' n salt) \<longleftrightarrow> s = s'"
proof -
  have "drop (length salt) (drop (Suc (length salt)) (bc_hash0 s' n salt)) = s'"
    by (simp add: bc_hash0_def)
  moreover have "length salt < length (bc_hash0 s' n salt)"
    by (simp add: bc_hash0_def)
  ultimately show ?thesis
    by (auto simp: bc_compare0_def bc0_strokes Let_def)
qed

lemma storeOrUpdate_quiet:
  assumes "t \<noteq> []" "truthy uid" "truthy msToLive" "isNumber E msToLive"
    and "\<forall>n. faults w n = None"
  shows "fst (storeOrUpdate E (JStr t) uid msToLive originUrl True self w) = Calls None []"
proof -
  obtain out self' w' where
    res: "storeOrUpdate E (JStr t) uid msToLive originUrl True self w = (out, self', w')"
    by (cases "storeOrUpdate E (JStr t) uid msToLive originUrl True self w") auto
  obtain self1 w1 where sel: "private_select self w = (None, self1, w1)"
    using assms(5)
    by (cases "self_selected self") (simp_all add: private_select_selected private_select_unselected)
  have f1: "faults w1 (length (trace w1)) = None"
    using assms(5) private_select_world[OF sel] by simp
  obtain w2 where hash: "bcrypt_hash E (JStr t) (Fin 10) w1
        = (Inr (bc_hash E t (Fin 10) (salts w1 (length (trace w1)))), w2)"
    using f1 by (simp add: bcrypt_hash_def io_def)
  have "truthy (JStr t)" using assms(1) by simp
  from storeOrUpdate_steps[OF this assms(2-4) sel hash res refl refl refl]
  have "out = Calls None []" using assms(5) by simp
  then show ?thesis by (simp add: res)
qed

lemma str_num0_65000: "str_num0 ''65000'' = Fin 65000"
  by (simp add: str_num0_def is_digit_def undec_def digit_val_def)

lemma roundtrip_65000: "str_num E0 (num_str E0 (Fin 65000)) = Fin 65000"
  by (simp add: num_str0_def digit_of_def str_num0_65000)

text \<open>The token of the example, checked a tenth of a second after it was stored.\<close>

theorem store_then_authenticate_witness:
  "fst (authenticate E0 (JStr ''tok'') (JStr ''bob'') True
          (fst (snd (storeOrUpdate E0 (JStr ''tok'') (JStr ''bob'') (JNum (Fin 60000)) (JStr ''http://x'')
                       True store0 w0)))
          (tick 100
             (snd (snd (storeOrUpdate E0 (JStr ''tok'') (JStr ''bob'') (JNum (Fin 60000)) (JStr ''http://x'')
                          True store0 w0)))))
     = Calls None [JBool True, JStr ''http://x'']"
proof -
  obtain out self1 w1 where
    res: "storeOrUpdate E0 (JStr ''tok'') (JStr ''bob'') (JNum (Fin 60000)) (JStr ''http://x'') True store0 w0
            = (out, self1, w1)"
    by (cases "storeOrUpdate E0 (JStr ''tok'') (JStr ''bob'') (JNum (Fin 60000)) (JStr ''http://x'') True store0 w0") auto
  have out: "out = Calls None []"
    using storeOrUpdate_quiet[of "''tok''" "JStr ''bob''" "JNum (Fin 60000)" E0 w0 "JStr ''http://x''" store0]
    by (simp add: res isNumber_def isFinite_def)
  have a: "''tok'' \<noteq> []" "''bob'' \<noteq> []" "(0::real) < 60000" "(0::int) \<le> 100"
    by simp_all
  have s: "num_add E0 (of_int (clock w0)) 60000 = Fin 65000" "of_int (clock w0 + 100) \<le> (65000::real)"
    "0 < num_div E0 60000 1000" "100 \<le> \<lceil>num_div E0 60000 1000\<rceil> * 1000"
    by simp_all
  have f: "faults w0 (length (trace w1)) = None" "faults w0 (Suc (length (trace w1))) = None"
    by simp_all
  have c: "\<forall>salt. bc_compare E0 ''tok'' (bc_hash E0 ''tok'' (Fin 10) salt)"
    by (simp add: bc0_exact)
  show ?thesis
    using store_then_authenticate[OF a(1-3) res[unfolded out] a(4) s f c roundtrip_65000] res
    by (simp add: js_or_def)
qed

section \<open>Absent and expired records\<close>

text \<open>
  C3. For a non-empty token and user id, with the database selected and HGETALL
  served: when the key of the user is absent, and when it is present but
  \<open>Date.now()\<close> is greater than its \<open>ttl\<close>, \<open>authenticate\<close> calls back with the same
  three values, no error, \<open>false\<close> and \<open>null\<close>. And it calls back with \<open>true\<close> and an
  origin only if the server holds the key, the time is not past its \<open>ttl\<close>, bcrypt
  accepts the token against the stored hash, and the origin is the stored one.
\<close>

theorem expired_answers_as_absent:
  assumes "t \<noteq> []" "u \<noteq> []"
    and "private_select self w = (None, self1, w1)"
    and "faults w (length (trace w1)) = None"
    and "key = toString E (self_tokenKey self) @ u"
  shows "(key \<notin> fst ` set (keyspace w) \<longrightarrow>
            fst (authenticate E (JStr t) (JStr u) True self w) = Calls None [JBool False, JNull])
     \<and> (\<forall>e. map_of (keyspace w) key = Some e \<and> alive (clock w) e
              \<and> js_gt (Fin (of_int (clock w))) (toNumber E (obj_get (hfields e) ''ttl'')) \<longrightarrow>
            fst (authenticate E (JStr t) (JStr u) True self w) = Calls None [JBool False, JNull])
     \<and> (\<forall>origin. fst (authenticate E (JStr t) (JStr u) True self w) = Calls None [JBool True, origin] \<longrightarrow>
            (\<exists>e h. map_of (keyspace (purge w)) key = Some e
               \<and> \<not> js_gt (Fin (of_int (clock w))) (toNumber E (obj_get (hfields e) ''ttl''))
               \<and> map_of (hfields e) ''token'' = Some h \<and> bc_compare E t h
               \<and> origin = obj_get (hfields e) ''origin''))"
proof -
  let ?found = "map_of (filter (\<lambda>kv. alive (clock w) (snd kv)) (keyspace w)) key"
  note served = authenticate_served[OF assms(1-5) refl]
  have absent: "key \<notin> fst ` set (keyspace w) \<longrightarrow>
            fst (authenticate E (JStr t) (JStr u) True self w) = Calls None [JBool False, JNull]"
  proof
    assume "key \<notin> fst ` set (keyspace w)"
    then have "?found = None" by (rule map_of_filter_absent)
    then show "fst (authenticate E (JStr t) (JStr u) True self w) = Calls None [JBool False, JNull]"
      by (rule served(1))
  qed
  have expired: "\<forall>e. map_of (keyspace w) key = Some e \<and> alive (clock w) e
              \<and> js_gt (Fin (of_int (clock w))) (toNumber E (obj_get (hfields e) ''ttl'')) \<longrightarrow>
            fst (authenticate E (JStr t) (JStr u) True self w) = Calls None [JBool False, JNull]"
  proof (intro allI impI)
    fix e
    assume a: "map_of (keyspace w) key = Some e \<and> alive (clock w) e
              \<and> js_gt (Fin (of_int (clock w))) (toNumber E (obj_get (hfields e) ''ttl''))"
    then have f: "?found = Some e"
      using map_of_filter_keep[of "keyspace w" key e "\<lambda>kv. alive (clock w) (snd kv)"] by simp
    have g: "js_gt (Fin (of_int (clock w))) (toNumber E (obj_get (hfields e) ''ttl''))"
      using a by blast
    show "fst (authenticate E (JStr t) (JStr u) True self w) = Calls None [JBool False, JNull]"
      by (rule served(2)[OF f g])
  qed
  have valid: "\<forall>origin. fst (authenticate E (JStr t) (JStr u) True self w) = Calls None [JBool True, origin] \<longrightarrow>
            (\<exists>e h. map_of (keyspace (purge w)) key = Some e
               \<and> \<not> js_gt (Fin (of_int (clock w))) (toNumber E (obj_get (hfields e) ''ttl''))
               \<and> map_of (hfields e) ''token'' = Some h \<and> bc_compare E t h
               \<and> origin = obj_get (hfields e) ''origin'')"
  proof (intro allI impI)
    fix origin
    assume "fst (authenticate E (JStr t) (JStr u) True self w) = Calls None [JBool True, origin]"
    from served(4)[OF this]
    show "\<exists>e h. map_of (keyspace (purge w)) key = Some e
               \<and> \<not> js_gt (Fin (of_int (clock w))) (toNumber E (obj_get (hfields e) ''ttl''))
               \<and> map_of (hfields e) ''token'' = Some h \<and> bc_compare E t h
               \<and> origin = obj_get (hfields e) ''origin''"
      by (simp add: purge_def)
  qed
  show ?thesis using absent expired valid by (intro conjI)
qed

lemma w_expired_select:
  "private_select store0 w_expired
     = (None, store0\<lparr>self_selected := True\<rparr>, w_expired\<lparr>trace := [Select (JNum (Fin 0))]\<rparr>)"
  by (simp add: private_select_def client_select_def io_def w_expired_def)

lemma str_num0_4000: "str_num0 ''4000'' = Fin 4000"
  by (simp add: str_num0_def is_digit_def undec_def digit_val_def)

text \<open>The user bob with no record, and with a record whose time has passed.\<close>

theorem expired_answers_as_absent_witness:
  "fst (authenticate E0 (JStr ''tok'') (JStr ''bob'') True store0 w0) = Calls None [JBool False, JNull]
   \<and> fst (authenticate E0 (JStr ''tok'') (JStr ''bob'') True store0 w_expired)
       = Calls None [JBool False, JNull]"
proof -
  have a: "''tok'' \<noteq> []" "''bob'' \<noteq> []"
    by simp_all
  have f0: "faults w0 (length (trace (w0\<lparr>trace := [Select (JNum (Fin 0))]\<rparr>))) = None"
    by simp
  have f1: "faults w_expired (length (trace (w_expired\<lparr>trace := [Select (JNum (Fin 0))]\<rparr>))) = None"
    by (simp add: w_expired_def)
  have e: "map_of (keyspace w_expired) (toString E0 (self_tokenKey store0) @ ''bob'')
      = Some \<lparr>hfields = [(''token'', ''x$stok''), (''origin'', ''http://x''), (''ttl'', ''4000'')],
              expire_at = Some 6000\<rparr>"
    by (simp add: w_expired_def)
  have x: "alive (clock w_expired)
             \<lparr>hfields = [(''token'', ''x$stok''), (''origin'', ''http://x''), (''ttl'', ''4000'')],
              expire_at = Some 6000\<rparr>"
    "js_gt (Fin (of_int (clock w_expired)))
       (toNumber E0 (obj_get (hfields
          \<lparr>hfields = [(''token'', ''x$stok''), (''origin'', ''http://x''), (''ttl'', ''4000'')],
           expire_at = Some 6000\<rparr>) ''ttl''))"
    by (simp_all add: w_expired_def alive_def obj_get_def str_num0_4000)
  show ?thesis
    using expired_answers_as_absent[OF a store0_select f0 refl]
      expired_answers_as_absent[OF a w_expired_select f1 refl] e x
    by simp
qed

section \<open>One token per user\<close>

lemma authenticate_world:
  assumes "self_selected self" "t \<noteq> []" "u \<noteq> []"
    and "faults w (length (trace w)) = None"
    and "authenticate E (JStr t) (JStr u) True self w = (out, self', w')"
  shows "self' = self" "clock w' = clock w" "faults w' = faults w"
    "keyspace w' = filter (\<lambda>kv. alive (clock w) (snd kv)) (keyspace w)"
  using assms
  by (auto simp: authenticate_def private_select_selected client_hgetall_unfold Let_def
      bcrypt_compare_def io_def purge_def
      split: if_splits option.splits prod.splits sum.splits jsval.splits)

lemma one_entry_per_key:
  "distinct (map fst al) \<Longrightarrow> map_of al k = Some e \<Longrightarrow> length (filter (\<lambda>kv. fst kv = k) al) = 1"
proof (induction al)
  case Nil
  then show ?case by simp
next
  case (Cons a al)
  show ?case
  proof (cases "fst a = k")
    case True
    then have "k \<notin> fst ` set al" using Cons.prems(1) by auto
    then have "filter (\<lambda>kv. fst kv = k) al = []" by (auto simp: filter_empty_conv)
    then show ?thesis using True by simp
  next
    case False
    then have "map_of al k = Some e" using Cons.prems(2) by (cases a) (auto split: if_splits)
    then show ?thesis using Cons.IH Cons.prems(1) False by simp
  qed
qed

text \<open>
  C2. Two successful calls of \<open>storeOrUpdate\<close> for the same user id, first with token
  A and then with a different token B (the keys of the database being distinct at
  the start, no call failing): the database holds exactly one entry under the key of
  the user, and its hash is that of token B; \<open>authenticate\<close> with token A then calls
  back with \<open>false\<close>, and after it \<open>authenticate\<close> with token B with \<open>true\<close> (within
  the life of B). bcrypt is taken to accept a token against a hash of B exactly when
  the token is B. Within the life of B: the time of expiry of B is the sum \<open>x\<close>
  that the runtime makes of the time of the second call and \<open>rB\<close>, and the checks
  come no later than \<open>x\<close>; the seconds given to EXPIRE are the quotient that the
  runtime makes of the milliseconds and 1000, taken up to a whole number, they are
  positive at both calls and the checks come within those of B. Where the sums and
  the quotients are exact, that is the case for every \<open>d2 \<le> rB\<close>.
\<close>

theorem second_store_replaces_first:
  assumes "tA \<noteq> []" "tB \<noteq> []" "tA \<noteq> tB" "u \<noteq> []" "0 < rA" "0 < rB"
    and "storeOrUpdate E (JStr tA) (JStr u) (JNum (Fin rA)) originA True self w
           = (Calls None [], self1, w1)"
    and "0 \<le> d1"
    and "storeOrUpdate E (JStr tB) (JStr u) (JNum (Fin rB)) originB True self1 (tick d1 w1)
           = (Calls None [], self2, w2)"
    and "0 \<le> d2" "d2 \<le> \<lceil>num_div E rB 1000\<rceil> * 1000"
    and "\<forall>n. faults w n = None"
    and "\<forall>s salt. bc_compare E s (bc_hash E tB (Fin 10) salt) \<longleftrightarrow> s = tB"
    and "str_num E (num_str E (Fin x)) = Fin x"
    and "distinct (map fst (keyspace w))"
    and "key = toString E (self_tokenKey self) @ u"
    and "num_add E (of_int (clock w + d1)) rB = Fin x" "of_int (clock w + d1 + d2) \<le> x"
    and "0 < num_div E rA 1000" "0 < num_div E rB 1000"
  shows "(\<exists>w3. authenticate E (JStr tA) (JStr u) True self2 (tick d2 w2)
                  = (Calls None [JBool False, JNull], self2, w3)
              \<and> fst (authenticate E (JStr tB) (JStr u) True self2 w3)
                  = Calls None [JBool True, JStr (toString E (js_or originB (JStr '''')))])
       \<and> length (filter (\<lambda>kv. fst kv = key) (keyspace w2)) = 1
       \<and> (\<exists>e salt. map_of (keyspace w2) key = Some e
              \<and> map_of (hfields e) ''token'' = Some (bc_hash E tB (Fin 10) salt))"
proof -
  note st1 = storeOrUpdate_stored[OF assms(5,19,7)]
  note st2 = storeOrUpdate_stored[OF assms(6,20,9)]
  have key: "toString E (self_tokenKey self1) @ u = key" "toString E (self_tokenKey self2) @ u = key"
    using st1(2) st2(2) assms(16) by simp_all
  have ck: "clock w2 = clock w + d1"
    using st1(3) st2(3) by simp
  have fl: "faults w2 = faults w"
    using st1(4) st2(4) by simp
  from st2(8) obtain e where e: "map_of (keyspace w2) key = Some e"
    and tok: "map_of (hfields e) ''token''
               = Some (bc_hash E tB (Fin 10)
                   (salts (tick d1 w1) (length (trace (tick d1 w1)) + (if self_selected self1 then 0 else 1))))"
    and org: "map_of (hfields e) ''origin'' = Some (toString E (js_or originB (JStr '''')))"
    and ttl: "map_of (hfields e) ''ttl'' = Some (num_str E (num_add E (of_int (clock w + d1)) rB))"
    and ex: "expire_at e = Some (clock w + d1 + \<lceil>num_div E rB 1000\<rceil> * 1000)"
    unfolding key using st1(3) by auto
  let ?W = "tick d2 w2"
  let ?h = "bc_hash E tB (Fin 10)
              (salts (tick d1 w1) (length (trace (tick d1 w1)) + (if self_selected self1 then 0 else 1)))"
  have sel: "private_select self2 ?W = (None, self2, ?W)"
    using st2(1) by (simp add: private_select_selected)
  have al: "alive (clock ?W) e"
    using assms(11) by (simp add: alive_def ex ck)
  have found: "Some e = map_of (filter (\<lambda>kv. alive (clock ?W) (snd kv)) (keyspace ?W)) key"
    using map_of_filter_keep[OF e, of "\<lambda>kv. alive (clock ?W) (snd kv)"] al by simp
  have notexp: "\<not> js_gt (Fin (of_int (clock ?W))) (toNumber E (obj_get (hfields e) ''ttl''))"
  proof -
    have "num_add E (of_int (clock w) + of_int d1) rB = Fin x"
      using assms(17) by simp
    then show ?thesis
      using assms(14,18) by (simp add: obj_get_def ttl ck)
  qed
  have fW: "faults ?W (length (trace ?W)) = None" "faults ?W (Suc (length (trace ?W))) = None"
    using assms(12) by (simp_all add: fl)
  have A: "fst (authenticate E (JStr tA) (JStr u) True self2 ?W) = Calls None [JBool False, JNull]"
    using authenticate_served(3)[OF assms(1,4) sel fW(1) key(2)[symmetric] found refl notexp tok fW(2)]
      assms(3,13)
    by simp
  obtain outA self3 w3 where resA: "authenticate E (JStr tA) (JStr u) True self2 ?W = (outA, self3, w3)"
    by (cases "authenticate E (JStr tA) (JStr u) True self2 ?W") auto
  note aw = authenticate_world[OF st2(1) assms(1,4) fW(1) resA]
  have outA: "outA = Calls None [JBool False, JNull]"
    using A resA by simp
  have sel3: "private_select self2 w3 = (None, self2, w3)"
    using st2(1) by (simp add: private_select_selected)
  have f3: "faults w3 (length (trace w3)) = None" "faults w3 (Suc (length (trace w3))) = None"
    using assms(12) aw(3) by (simp_all add: fl)
  have e3: "map_of (keyspace w3) key = Some e"
    using found by (simp add: aw(4))
  have al3: "alive (clock w3) e"
    using al by (simp add: aw(2))
  have found3: "Some e = map_of (filter (\<lambda>kv. alive (clock w3) (snd kv)) (keyspace w3)) key"
    using map_of_filter_keep[OF e3, of "\<lambda>kv. alive (clock w3) (snd kv)"] al3 by simp
  have notexp3: "\<not> js_gt (Fin (of_int (clock w3))) (toNumber E (obj_get (hfields e) ''ttl''))"
    using notexp by (simp add: aw(2))
  have B: "fst (authenticate E (JStr tB) (JStr u) True self2 w3)
             = Calls None [JBool True, JStr (toString E (js_or originB (JStr '''')))]"
    using authenticate_served(3)[OF assms(2,4) sel3 f3(1) key(2)[symmetric] found3 refl notexp3 tok f3(2)]
      assms(13)
    by (simp add: obj_get_def org)
  have first: "\<exists>w3. authenticate E (JStr tA) (JStr u) True self2 ?W
                  = (Calls None [JBool False, JNull], self2, w3)
              \<and> fst (authenticate E (JStr tB) (JStr u) True self2 w3)
                  = Calls None [JBool True, JStr (toString E (js_or originB (JStr '''')))]"
    using resA outA aw(1) B by auto
  have "distinct (map fst (keyspace (tick d1 w1)))"
    using st1(9)[OF assms(15)] by simp
  then have "distinct (map fst (keyspace w2))"
    by (rule st2(9))
  then have one: "length (filter (\<lambda>kv. fst kv = key) (keyspace w2)) = 1"
    using e by (rule one_entry_per_key)
  have holds: "\<exists>e salt. map_of (keyspace w2) key = Some e
              \<and> map_of (hfields e) ''token'' = Some (bc_hash E tB (Fin 10) salt)"
    using e tok by blast
  show ?thesis using first one holds by (intro conjI)
qed

lemma str_num0_65010: "str_num0 ''65010'' = Fin 65010"
  by (simp add: str_num0_def is_digit_def undec_def digit_val_def)

lemma isNumber_60000: "isNumber E (JNum (Fin 60000))"
  by (simp add: isNumber_def isFinite_def)

text \<open>Token A no longer opens the door once token B is stored, and bob has one record.\<close>

theorem second_store_replaces_first_witness:
  "fst (authenticate E0 (JStr ''tokA'') (JStr ''bob'') True (fst (snd stored_B))
          (tick 100 (snd (snd stored_B)))) = Calls None [JBool False, JNull]
   \<and> length (filter (\<lambda>kv. fst kv = ''pwdless:bob'') (keyspace (snd (snd stored_B)))) = 1"
proof -
  obtain oA self1 w1 where rA: "stored_A = (oA, self1, w1)"
    by (cases stored_A) auto
  have oA: "oA = Calls None []"
    using storeOrUpdate_quiet[of "''tokA''" "JStr ''bob''" "JNum (Fin 60000)" E0 w0 "JStr ''http://a''" store0]
      rA isNumber_60000
    by (simp add: stored_A_def)
  have first: "storeOrUpdate E0 (JStr ''tokA'') (JStr ''bob'') (JNum (Fin 60000)) (JStr ''http://a'')
                True store0 w0 = (Calls None [], self1, w1)"
    using rA oA by (simp add: stored_A_def)
  note st1 = storeOrUpdate_stored[OF _ _ first]
  have q: "\<forall>n. faults (tick 10 w1) n = None"
    using st1(4) by simp
  obtain oB self2 w2 where rB: "stored_B = (oB, self2, w2)"
    by (cases stored_B) auto
  have oB: "oB = Calls None []"
    using storeOrUpdate_quiet[of "''tokB''" "JStr ''bob''" "JNum (Fin 60000)" E0 "tick 10 w1"
        "JStr ''http://b''" self1] rB q isNumber_60000
    by (simp add: stored_B_def rA)
  have second: "storeOrUpdate E0 (JStr ''tokB'') (JStr ''bob'') (JNum (Fin 60000)) (JStr ''http://b'')
                True self1 (tick 10 w1) = (Calls None [], self2, w2)"
    using rB oB by (simp add: stored_B_def rA)
  have a: "''tokA'' \<noteq> []" "''tokB'' \<noteq> []" "''tokA'' \<noteq> ''tokB''" "''bob'' \<noteq> []"
    "(0::real) < 60000" "(0::int) \<le> 10" "(0::int) \<le> 100"
    "100 \<le> \<lceil>num_div E0 60000 1000\<rceil> * 1000"
    by simp_all
  have f: "\<forall>n. faults w0 n = None"
    by simp
  have c: "\<forall>s salt. bc_compare E0 s (bc_hash E0 ''tokB'' (Fin 10) salt) \<longleftrightarrow> s = ''tokB''"
    by (simp add: bc0_exact)
  have n: "str_num E0 (num_str E0 (Fin 65010)) = Fin 65010"
    by (simp add: num_str0_def digit_of_def str_num0_65010)
  have s: "num_add E0 (of_int (clock w0 + 10)) 60000 = Fin 65010"
    "of_int (clock w0 + 10 + 100) \<le> (65010::real)"
    "0 < num_div E0 60000 1000" "0 < num_div E0 60000 1000"
    by simp_all
  have d: "distinct (map fst (keyspace w0))"
    by simp
  show ?thesis
    using second_store_replaces_first[OF a(1-5) a(5) first a(6) second a(7,8) f c n d refl s]
    by (auto simp: rB)
qed

section \<open>Salting\<close>

text \<open>
  C6. Two successful calls of \<open>storeOrUpdate\<close> with the same token for the same user
  id: each call hashes the token anew, with the salt drawn at its own call of bcrypt,
  and stores the hash. So the two stored hashes differ and neither is the token,
  for a salt source that never repeats and a bcrypt whose hash determines the salt
  and is never its own input. Both records are held when their call ends: the
  seconds given to EXPIRE, the quotient that the runtime makes of the milliseconds
  and 1000 taken up to a whole number, are positive.
\<close>

theorem same_token_new_salt_new_hash:
  assumes "t \<noteq> []" "u \<noteq> []" "0 < r1" "0 < r2"
    and "storeOrUpdate E (JStr t) (JStr u) (JNum (Fin r1)) origin1 True self w
           = (Calls None [], self1, w1)"
    and "0 \<le> d"
    and "storeOrUpdate E (JStr t) (JStr u) (JNum (Fin r2)) origin2 True self1 (tick d w1)
           = (Calls None [], self2, w2)"
    and "inj (salts w)"
    and "\<forall>s s'. bc_hash E t (Fin 10) s = bc_hash E t (Fin 10) s' \<longrightarrow> s = s'"
    and "\<forall>s. bc_hash E t (Fin 10) s \<noteq> t"
    and "key = toString E (self_tokenKey self) @ u"
    and "0 < num_div E r1 1000" "0 < num_div E r2 1000"
  shows "\<exists>e1 e2 h1 h2.
           map_of (keyspace w1) key = Some e1 \<and> map_of (hfields e1) ''token'' = Some h1
         \<and> map_of (keyspace w2) key = Some e2 \<and> map_of (hfields e2) ''token'' = Some h2
         \<and> h1 \<noteq> h2 \<and> h1 \<noteq> t \<and> h2 \<noteq> t"
proof -
  note st1 = storeOrUpdate_stored[OF assms(3,12,5)]
  note st2 = storeOrUpdate_stored[OF assms(4,13,7)]
  let ?i1 = "length (trace w) + (if self_selected self then 0 else 1)"
  let ?i2 = "length (trace w1)"
  from st1(8) obtain e1 where e1: "map_of (keyspace w1) key = Some e1"
    and h1: "map_of (hfields e1) ''token'' = Some (bc_hash E t (Fin 10) (salts w ?i1))"
    unfolding assms(11) by blast
  from st2(8) obtain e2 where e2: "map_of (keyspace w2) key = Some e2"
    and h2: "map_of (hfields e2) ''token'' = Some (bc_hash E t (Fin 10) (salts w ?i2))"
    unfolding assms(11) using st1(1,2,5) by auto
  have "?i1 \<noteq> ?i2" using st1(7) by simp
  then have "salts w ?i1 \<noteq> salts w ?i2"
    using assms(8) by (simp add: inj_eq)
  then have "bc_hash E t (Fin 10) (salts w ?i1) \<noteq> bc_hash E t (Fin 10) (salts w ?i2)"
    using assms(9) by blast
  then show ?thesis
    using e1 h1 e2 h2 assms(10) by blast
qed

lemma bc0_salted: "bc_hash0 s n salt = bc_hash0 s n salt' \<Longrightarrow> salt = salt'"
proof -
  assume a: "bc_hash0 s n salt = bc_hash0 s n salt'"
  then have "takeWhile (\<lambda>c. c \<noteq> CHR ''$'') (bc_hash0 s n salt)
      = takeWhile (\<lambda>c. c \<noteq> CHR ''$'') (bc_hash0 s n salt')"
    by simp
  then have "length salt = length salt'"
    by (simp add: bc0_strokes)
  then show ?thesis using a by (simp add: bc_hash0_def)
qed

lemma bc0_not_plain: "bc_hash0 s n salt \<noteq> s"
proof
  assume "bc_hash0 s n salt = s"
  then have "length (bc_hash0 s n salt) = length s" by simp
  then show False by (simp add: bc_hash0_def)
qed

text \<open>The token \<open>tok\<close> stored twice leaves two hashes that differ.\<close>

theorem same_token_new_salt_new_hash_witness:
  "\<exists>e1 e2 h1 h2.
      map_of (keyspace (snd (snd stored_1))) ''pwdless:bob'' = Some e1
    \<and> map_of (hfields e1) ''token'' = Some h1
    \<and> map_of (keyspace (snd (snd stored_2))) ''pwdless:bob'' = Some e2
    \<and> map_of (hfields e2) ''token'' = Some h2
    \<and> h1 \<noteq> h2 \<and> h1 \<noteq> ''tok'' \<and> h2 \<noteq> ''tok''"
proof -
  obtain o1 self1 w1 where r1: "stored_1 = (o1, self1, w1)"
    by (cases stored_1) auto
  have o1: "o1 = Calls None []"
    using storeOrUpdate_quiet[of "''tok''" "JStr ''bob''" "JNum (Fin 60000)" E0 w0 "JStr ''http://a''" store0]
      r1 isNumber_60000
    by (simp add: stored_1_def)
  have first: "storeOrUpdate E0 (JStr ''tok'') (JStr ''bob'') (JNum (Fin 60000)) (JStr ''http://a'')
                True store0 w0 = (Calls None [], self1, w1)"
    using r1 o1 by (simp add: stored_1_def)
  note st1 = storeOrUpdate_stored[OF _ _ first]
  have q: "\<forall>n. faults (tick 10 w1) n = None"
    using st1(4) by simp
  obtain o2 self2 w2 where r2: "stored_2 = (o2, self2, w2)"
    by (cases stored_2) auto
  have o2: "o2 = Calls None []"
    using storeOrUpdate_quiet[of "''tok''" "JStr ''bob''" "JNum (Fin 60000)" E0 "tick 10 w1"
        "JStr ''http://a''" self1] r2 q isNumber_60000
    by (simp add: stored_2_def r1)
  have second: "storeOrUpdate E0 (JStr ''tok'') (JStr ''bob'') (JNum (Fin 60000)) (JStr ''http://a'')
                True self1 (tick 10 w1) = (Calls None [], self2, w2)"
    using r2 o2 by (simp add: stored_2_def r1)
  have a: "''tok'' \<noteq> []" "''bob'' \<noteq> []" "(0::real) < 60000" "(0::int) \<le> 10"
    "0 < num_div E0 60000 1000"
    by simp_all
  have i: "inj (salts w0)"
    by (simp add: inj_def)
  have s: "\<forall>s s'. bc_hash E0 ''tok'' (Fin 10) s = bc_hash E0 ''tok'' (Fin 10) s' \<longrightarrow> s = s'"
    using bc0_salted by auto
  have p: "\<forall>s. bc_hash E0 ''tok'' (Fin 10) s \<noteq> ''tok''"
    using bc0_not_plain by simp
  show ?thesis
    using same_token_new_salt_new_hash[OF a(1-3) a(3) first a(4) second i s p refl a(5) a(5)]
    by (simp add: r1 r2)
qed

section \<open>The number of rounds\<close>

lemma constructed_has_no_rounds:
  "RedisStore_rounds E port host opts w = (Inr self, w1) \<Longrightarrow> redisstore (self_options self) = None"
  by (auto simp: RedisStore_rounds_def Let_def split: if_splits)

lemma storeOrUpdate_cost:
  assumes "storeOrUpdate E token uid msToLive originUrl callback self w = (out, self', w')"
    and "BcryptHash dat n \<in> set (trace w')"
  shows "BcryptHash dat n \<in> set (trace w) \<or> n = Fin 10"
proof (cases "\<not> truthy token \<or> \<not> truthy uid \<or> \<not> truthy msToLive \<or> \<not> callback \<or> \<not> isNumber E msToLive")
  case True
  then show ?thesis using assms by (auto simp: storeOrUpdate_def)
next
  case False
  obtain r self1 w1 where sel: "private_select self w = (r, self1, w1)"
    by (cases "private_select self w") auto
  have t1: "set (trace w1) \<subseteq> insert (Select (self_database self)) (set (trace w))"
    using sel by (auto simp: private_select_def client_select_def io_def split: if_splits option.splits)
  show ?thesis
  proof (cases r)
    case (Some err)
    then have "w' = w1" using assms(1) False sel by (auto simp: storeOrUpdate_def)
    then show ?thesis using assms(2) t1 by auto
  next
    case None
    obtain hr w2 where hash: "bcrypt_hash E token (Fin 10) w1 = (hr, w2)"
      by (cases "bcrypt_hash E token (Fin 10) w1") auto
    note hw = bcrypt_hash_world[OF hash]
    show ?thesis
    proof (cases hr)
      case (Inl err)
      then have "w' = w2" using assms(1) False sel None hash by (auto simp: storeOrUpdate_def)
      then show ?thesis using assms(2) t1 hw(5) by auto
    next
      case (Inr h)
      obtain r' where r': "toNumber E msToLive = Fin r'"
        using False isNumber_finite by blast
      have v: "truthy token" "truthy uid" "truthy msToLive" "isNumber E msToLive"
        using False by simp_all
      have res: "storeOrUpdate E token uid msToLive originUrl True self w = (out, self', w')"
        using assms(1) False by simp
      from storeOrUpdate_steps[OF v sel[unfolded None] hash[unfolded Inr] res refl refl refl]
      have "set (trace w') \<subseteq> set (trace w2) \<union>
          {Hmset (js_add E (self_tokenKey self) uid)
             [(''token'', JStr h), (''origin'', js_or originUrl (JStr '''')),
              (''ttl'', js_add E (JNum (Fin (of_int (clock w)))) msToLive)],
           Expire (js_add E (self_tokenKey self) uid) (Math_ceil (jsnum_div E (toNumber E msToLive) 1000))}"
        by (auto split: option.splits)
      then show ?thesis using assms(2) t1 hw(5) by auto
    qed
  qed
qed

text \<open>
  C5. The claim speaks of a number of rounds that is configured, held against a
  minimum and refused with a configuration error when it is too small. The source
  does not do that, in either copy. In the copy that reads the option, the
  constructor has deleted \<open>_options.redisstore\<close>: on every store it builds, whatever
  the options were, an accepted call of \<open>storeOrUpdate\<close> throws a TypeError in the
  callback of \<open>_select\<close>, before the check of the minimum and before bcrypt. In the
  first copy the option is not read: every call of bcrypt that \<open>storeOrUpdate\<close>
  makes has the fixed cost 10.
\<close>

theorem rounds_option_is_lost:
  assumes "truthy token" "truthy uid" "truthy msToLive" "isNumber E msToLive"
    and "private_select self w = (None, self1, w1)"
  shows "(\<forall>port host opts v self0 v1.
            RedisStore_rounds E port host opts v = (Inr self0, v1)
              \<and> self_options self = self_options self0 \<longrightarrow>
            storeOrUpdate_rounds E token uid msToLive originUrl True self w
              = (thrown_in_callback self (TypeError ''Cannot read property 'rounds' of undefined''),
                 self1, w1))
       \<and> (\<forall>out self' w' dat n.
            storeOrUpdate E token uid msToLive originUrl True self w = (out, self', w')
              \<and> BcryptHash dat n \<in> set (trace w') \<longrightarrow>
            BcryptHash dat n \<in> set (trace w) \<or> n = Fin 10)"
proof -
  have o: "self_options self1 = self_options self"
    using private_select_world(7)[OF assms(5)] .
  have "storeOrUpdate_rounds E token uid msToLive originUrl True self w
              = (thrown_in_callback self (TypeError ''Cannot read property 'rounds' of undefined''),
                 self1, w1)"
    if "RedisStore_rounds E port host opts v = (Inr self0, v1)" "self_options self = self_options self0"
    for port host opts v self0 v1
    using constructed_has_no_rounds[OF that(1)] that(2) assms o
    by (simp add: storeOrUpdate_rounds_def)
  moreover have "BcryptHash dat n \<in> set (trace w) \<or> n = Fin 10"
    if "storeOrUpdate E token uid msToLive originUrl True self w = (out, self', w')"
      "BcryptHash dat n \<in> set (trace w')"
    for out self' w' dat n
    using storeOrUpdate_cost[OF that] .
  ultimately show ?thesis by blast
qed

text \<open>
  A store asked for four rounds: the copy that reads the option throws the TypeError,
  the first copy stores the token and never calls bcrypt with four rounds.
\<close>

theorem rounds_option_is_lost_witness:
  "RedisStore_rounds E0 (JNum (Fin 6379)) (JStr ''127.0.0.1'') (Some opts_rounds4) w0
     = (Inr store0, w0\<lparr>trace := [CreateClient (JNum (Fin 6379)) (JStr ''127.0.0.1'')]\<rparr>)
   \<and> storeOrUpdate_rounds E0 (JStr ''tok'') (JStr ''bob'') (JNum (Fin 60000)) (JStr ''http://x'') True
       store0 (w0\<lparr>trace := [CreateClient (JNum (Fin 6379)) (JStr ''127.0.0.1'')]\<rparr>)
     = (Uncaught (TypeError ''Cannot read property 'rounds' of undefined''),
        store0\<lparr>self_selected := True\<rparr>,
        w0\<lparr>trace := [CreateClient (JNum (Fin 6379)) (JStr ''127.0.0.1''), Select (JNum (Fin 0))]\<rparr>)
   \<and> RedisStore E0 JNull JNull (Some opts_rounds4) w0
     = (Inr store0, w0\<lparr>trace := [CreateClient (JNum (Fin 6379)) (JStr ''127.0.0.1'')]\<rparr>)
   \<and> fst (storeOrUpdate E0 (JStr ''tok'') (JStr ''bob'') (JNum (Fin 60000)) (JStr ''http://x'') True
          store0 (w0\<lparr>trace := [CreateClient (JNum (Fin 6379)) (JStr ''127.0.0.1'')]\<rparr>))
     = Calls None []
   \<and> BcryptHash (JStr ''tok'') (Fin 4)
       \<notin> set (trace (snd (snd (storeOrUpdate E0 (JStr ''tok'') (JStr ''bob'') (JNum (Fin 60000))
              (JStr ''http://x'') True store0
              (w0\<lparr>trace := [CreateClient (JNum (Fin 6379)) (JStr ''127.0.0.1'')]\<rparr>)))))"
proof -
  let ?w = "w0\<lparr>trace := [CreateClient (JNum (Fin 6379)) (JStr ''127.0.0.1'')]\<rparr>"
  have c1: "RedisStore_rounds E0 (JNum (Fin 6379)) (JStr ''127.0.0.1'') (Some opts_rounds4) w0
     = (Inr store0, ?w)"
    by (simp add: RedisStore_rounds_def opts_rounds4_def Let_def js_or_def store0_def io_def)
  have c3: "RedisStore E0 JNull JNull (Some opts_rounds4) w0 = (Inr store0, ?w)"
    by (simp add: RedisStore_def opts_rounds4_def Let_def js_or_def store0_def io_def)
  have q: "\<forall>n. faults ?w n = None" by simp
  have c4: "fst (storeOrUpdate E0 (JStr ''tok'') (JStr ''bob'') (JNum (Fin 60000)) (JStr ''http://x'') True
          store0 ?w) = Calls None []"
    using storeOrUpdate_quiet[of "''tok''" "JStr ''bob''" "JNum (Fin 60000)" E0 ?w "JStr ''http://x''" store0]
      q isNumber_60000 by simp
  obtain out self' w' where res: "storeOrUpdate E0 (JStr ''tok'') (JStr ''bob'') (JNum (Fin 60000))
       (JStr ''http://x'') True store0 ?w = (out, self', w')"
    by (cases "storeOrUpdate E0 (JStr ''tok'') (JStr ''bob'') (JNum (Fin 60000)) (JStr ''http://x'') True store0 ?w") auto
  have sel: "private_select store0 ?w = (None, store0\<lparr>self_selected := True\<rparr>,
       w0\<lparr>trace := [CreateClient (JNum (Fin 6379)) (JStr ''127.0.0.1''), Select (JNum (Fin 0))]\<rparr>)"
    by (simp add: private_select_unselected)
  have v: "truthy (JStr ''tok'')" "truthy (JStr ''bob'')" "truthy (JNum (Fin 60000))"
    by simp_all
  note lost = rounds_option_is_lost[OF v isNumber_60000 sel, where E = E0 and originUrl = "JStr ''http://x''"]
  have c2: "storeOrUpdate_rounds E0 (JStr ''tok'') (JStr ''bob'') (JNum (Fin 60000)) (JStr ''http://x'') True
       store0 ?w
     = (Uncaught (TypeError ''Cannot read property 'rounds' of undefined''),
        store0\<lparr>self_selected := True\<rparr>,
        w0\<lparr>trace := [CreateClient (JNum (Fin 6379)) (JStr ''127.0.0.1''), Select (JNum (Fin 0))]\<rparr>)"
    using lost[THEN conjunct1, rule_format, OF conjI[OF c1 refl]]
    by (simp add: thrown_in_callback_def)
  have c5: "BcryptHash (JStr ''tok'') (Fin 4) \<notin> set (trace w')"
    using lost[THEN conjunct2, rule_format, OF conjI[OF res], of "JStr ''tok''" "Fin 4"]
    by auto
  show ?thesis
    using c1 c2 c3 c4 c5 by (simp add: res)
qed

end
